theory Spec2Isabelle
  imports Complex_Main "HOL-Library.Word"
begin

section \<open>JavaScript values\<close>

text \<open>
  The tool server is JavaScript. Its numbers are modelled as exact rationals extended
  with the two infinities and NaN, so that a division by zero is the value the
  program computes and not an unspecified one. The rounding error of IEEE doubles and
  the sign of zero are not modelled. A \<open>Buffer\<close> is a list of bytes. A thrown value is
  an \<open>Error\<close> object: its message and the lines of its stack trace (the source has no
  \<open>throw\<close> statement of its own; every exception comes from a library).
\<close>

type_synonym bytes = "8 word list"

datatype number = Num rat | PosInfinity | NegInfinity | NaN

datatype exn = Error string "string list"

datatype jsval =
    JUndefined
  | JNull
  | JBool bool
  | JNumber number
  | JString string
  | JArray "jsval list"
  | JObject "(string \<times> jsval) list"

text \<open>Property access \<open>obj.key\<close> on an object literal.\<close>

fun field :: "jsval \<Rightarrow> string \<Rightarrow> jsval option" where
  "field (JObject kvs) k = map_of kvs k"
| "field _ k = None"

text \<open>The operators \<open>/\<close>, \<open>*\<close> and \<open><=\<close>, and \<open>Math.round\<close>.\<close>

fun js_div :: "number \<Rightarrow> number \<Rightarrow> number" where
  "js_div (Num a) (Num b) =
     (if b = 0 then (if a = 0 then NaN else if 0 < a then PosInfinity else NegInfinity)
      else Num (a / b))"
| "js_div NaN y = NaN"
| "js_div x NaN = NaN"
| "js_div (Num a) y = Num 0"
| "js_div PosInfinity (Num b) = (if b < 0 then NegInfinity else PosInfinity)"
| "js_div NegInfinity (Num b) = (if b < 0 then PosInfinity else NegInfinity)"
| "js_div x y = NaN"

fun js_mul :: "number \<Rightarrow> number \<Rightarrow> number" where
  "js_mul (Num a) (Num b) = Num (a * b)"
| "js_mul NaN y = NaN"
| "js_mul x NaN = NaN"
| "js_mul PosInfinity (Num b) =
     (if b = 0 then NaN else if 0 < b then PosInfinity else NegInfinity)"
| "js_mul NegInfinity (Num b) =
     (if b = 0 then NaN else if 0 < b then NegInfinity else PosInfinity)"
| "js_mul (Num a) PosInfinity =
     (if a = 0 then NaN else if 0 < a then PosInfinity else NegInfinity)"
| "js_mul (Num a) NegInfinity =
     (if a = 0 then NaN else if 0 < a then NegInfinity else PosInfinity)"
| "js_mul PosInfinity PosInfinity = PosInfinity"
| "js_mul NegInfinity NegInfinity = PosInfinity"
| "js_mul PosInfinity NegInfinity = NegInfinity"
| "js_mul NegInfinity PosInfinity = NegInfinity"

fun js_le :: "number \<Rightarrow> number \<Rightarrow> bool" where
  "js_le (Num a) (Num b) = (a \<le> b)"
| "js_le NaN y = False"
| "js_le x NaN = False"
| "js_le NegInfinity y = True"
| "js_le x PosInfinity = True"
| "js_le x y = False"

fun js_lt :: "number \<Rightarrow> number \<Rightarrow> bool" where
  "js_lt (Num a) (Num b) = (a < b)"
| "js_lt NaN y = False"
| "js_lt x NaN = False"
| "js_lt PosInfinity y = False"
| "js_lt x NegInfinity = False"
| "js_lt x y = True"

fun Math_round :: "number \<Rightarrow> number" where
  "Math_round (Num a) = Num (of_int \<lfloor>a + 1 / 2\<rfloor>)"
| "Math_round x = x"

text \<open>
  Decimal digits, and \<open>x.toFixed(2)\<close>: the integer \<open>n\<close> nearest to \<open>100 * x\<close> (the larger
  one on a tie), printed with a point before its last two digits. The exponent notation
  that JavaScript uses from \<open>1e21\<close> on is not modelled; no Buffer is that long.
\<close>

definition digit :: "nat \<Rightarrow> char" where
  "digit n = ''0123456789'' ! (n mod 10)"

fun digits :: "nat \<Rightarrow> string" where
  "digits n = (if n < 10 then [digit n] else digits (n div 10) @ [digit n])"

declare digits.simps [simp del]

fun toFixed2 :: "number \<Rightarrow> string" where
  "toFixed2 (Num x) =
     (let n = nat \<lfloor>\<bar>x\<bar> * 100 + 1 / 2\<rfloor>
      in (if x < 0 then ''-'' else []) @ digits (n div 100) @ ''.'' @
         [digit (n div 10), digit n])"
| "toFixed2 PosInfinity = ''Infinity''"
| "toFixed2 NegInfinity = ''-Infinity''"
| "toFixed2 NaN = ''NaN''"

section \<open>Paths: \<open>path.join\<close> of Node.js (POSIX)\<close>

text \<open>
  \<open>path.join\<close> concatenates its non-empty arguments with a slash and normalises the
  result: empty and \<open>.\<close> segments are dropped and a \<open>..\<close> segment removes the segment
  before it. \<open>normalizeString\<close> keeps the segments seen so far as a stack, the last
  one first.
\<close>

fun split_slash :: "string \<Rightarrow> string list" where
  "split_slash [] = [[]]"
| "split_slash (c # cs) =
     (if c = CHR ''/'' then [] # split_slash cs
      else (case split_slash cs of [] \<Rightarrow> [[c]] | s # ss \<Rightarrow> (c # s) # ss))"

fun join_slash :: "string list \<Rightarrow> string" where
  "join_slash [] = []"
| "join_slash [s] = s"
| "join_slash (s # t # ts) = s @ ''/'' @ join_slash (t # ts)"

fun normalizeString :: "bool \<Rightarrow> string list \<Rightarrow> string list \<Rightarrow> string list" where
  "normalizeString allowAboveRoot res [] = rev res"
| "normalizeString allowAboveRoot res (s # ss) =
     (if s = [] \<or> s = ''.'' then normalizeString allowAboveRoot res ss
      else if s = ''..'' then
        (case res of
           [] \<Rightarrow> normalizeString allowAboveRoot (if allowAboveRoot then [s] else []) ss
         | t # ts \<Rightarrow>
             if t = ''..''
             then normalizeString allowAboveRoot (if allowAboveRoot then s # res else res) ss
             else normalizeString allowAboveRoot ts ss)
      else normalizeString allowAboveRoot (s # res) ss)"

definition path_normalize :: "string \<Rightarrow> string" where
  "path_normalize path =
     (if path = [] then ''.''
      else
        (let isAbsolute = (hd path = CHR ''/'');
             trailingSeparator = (last path = CHR ''/'');
             p = join_slash (normalizeString (\<not> isAbsolute) [] (split_slash path))
         in if p = [] then (if isAbsolute then ''/'' else if trailingSeparator then ''./'' else ''.'')
            else (if isAbsolute then ''/'' else []) @ p @
                 (if trailingSeparator then ''/'' else [])))"

definition path_join :: "string \<Rightarrow> string \<Rightarrow> string" where
  "path_join a b =
     (let joined = (if a = [] then b else if b = [] then a else a @ ''/'' @ b)
      in if joined = [] then ''.'' else path_normalize joined)"

definition OUTPUT_DIR :: string where
  "OUTPUT_DIR = ''/Users/yuripetrinim5/Downloads''"

definition REPORTS_DIR :: string where
  "REPORTS_DIR = path_join OUTPUT_DIR ''symbiotic-reports''"

definition BASELINES_DIR :: string where
  "BASELINES_DIR = path_join REPORTS_DIR ''baselines''"

definition DIFFS_DIR :: string where
  "DIFFS_DIR = path_join REPORTS_DIR ''diffs''"

definition COMPONENTS_DIR :: string where
  "COMPONENTS_DIR = path_join REPORTS_DIR ''components''"

definition VIDEOS_DIR :: string where
  "VIDEOS_DIR = path_join REPORTS_DIR ''videos''"

definition HISTORY_DIR :: string where
  "HISTORY_DIR = path_join REPORTS_DIR ''history''"

definition DASHBOARDS_DIR :: string where
  "DASHBOARDS_DIR = path_join REPORTS_DIR ''dashboards''"

text \<open>
  The directories of the list under \<open>// Ensure directories exist\<close>: when the script is
  loaded, each of them at whose path nothing exists is made.
\<close>

definition ensured_directories :: "string list" where
  "ensured_directories =
     [REPORTS_DIR, BASELINES_DIR, DIFFS_DIR, COMPONENTS_DIR, VIDEOS_DIR, HISTORY_DIR,
      DASHBOARDS_DIR]"

section \<open>The clock: \<open>timestamp()\<close>\<close>

text \<open>
  \<open>new Date().toISOString()\<close> is \<open>YYYY-MM-DDTHH:mm:ss.sssZ\<close> (for the years 0 to 9999);
  \<open>timestamp\<close> replaces every colon and point by a hyphen and keeps the first 19
  characters, so two calls within one second give the same text. A date is given by the
  numbers that \<open>toISOString\<close> prints.
\<close>

record date =
  year :: nat
  month :: nat
  day :: nat
  hours :: nat
  minutes :: nat
  seconds :: nat
  milliseconds :: nat

definition pad :: "nat \<Rightarrow> nat \<Rightarrow> string" where
  "pad w n = replicate (w - length (digits n)) (CHR ''0'') @ digits n"

definition toISOString :: "date \<Rightarrow> string" where
  "toISOString d =
     pad 4 (year d) @ ''-'' @ pad 2 (month d) @ ''-'' @ pad 2 (day d) @ ''T'' @
     pad 2 (hours d) @ '':'' @ pad 2 (minutes d) @ '':'' @ pad 2 (seconds d) @ ''.'' @
     pad 3 (milliseconds d) @ ''Z''"

definition timestamp :: "date \<Rightarrow> string" where
  "timestamp d =
     take 19 (map (\<lambda>c. if c = CHR '':'' \<or> c = CHR ''.'' then CHR ''-'' else c) (toISOString d))"

section \<open>The file system\<close>

text \<open>
  The files are a map from paths to contents, and the directories that exist are a set
  of paths. Reading or unlinking a path with no file throws, as \<open>fs\<close> does (ENOENT).
  \<open>fs.writeFileSync\<close> creates or replaces the file, and makes no directory: it throws
  ENOENT when the directory that is to hold the file does not exist. Failures that
  depend on more than the paths (permissions, a full disk) are outside this model.
\<close>

type_synonym files = "string \<Rightarrow> bytes option"

text \<open>
  The directory that holds the file at a path: the path up to its last slash (\<open>/\<close> for
  a file in the root, \<open>.\<close> for a path without a slash).
\<close>

definition parent_directory :: "string \<Rightarrow> string" where
  "parent_directory p =
     (let d = rev (tl (dropWhile (\<lambda>c. c \<noteq> CHR ''/'') (rev p)))
      in if d = [] then (if CHR ''/'' \<in> set p then ''/'' else ''.'') else d)"

text \<open>
  \<open>mkdir\<close> with \<open>recursive: true\<close> makes sure of a directory and of every directory above
  it: for \<open>/a/b\<close> these are \<open>/\<close>, \<open>/a\<close> and \<open>/a/b\<close>.
\<close>

fun ancestors_from :: "string \<Rightarrow> string list \<Rightarrow> string list" where
  "ancestors_from p [] = []"
| "ancestors_from p (s # ss) = (p @ ''/'' @ s) # ancestors_from (p @ ''/'' @ s) ss"

definition mkdir_recursive :: "string \<Rightarrow> string list" where
  "mkdir_recursive d =
     (case split_slash d of [] \<Rightarrow> []
      | s # ss \<Rightarrow> (if s = [] then ''/'' else s) # ancestors_from s ss)"

definition existsSync :: "files \<Rightarrow> string \<Rightarrow> bool" where
  "existsSync fs p = (fs p \<noteq> None)"

definition readFileSync :: "files \<Rightarrow> string \<Rightarrow> exn + bytes" where
  "readFileSync fs p = (case fs p of None \<Rightarrow> Inl (Error ''ENOENT'' []) | Some b \<Rightarrow> Inr b)"

definition writeFileSync :: "files \<Rightarrow> string set \<Rightarrow> string \<Rightarrow> bytes \<Rightarrow> exn + files" where
  "writeFileSync fs dirs p b =
     (if parent_directory p \<in> dirs then Inr (fs(p \<mapsto> b)) else Inl (Error ''ENOENT'' []))"

text \<open>
  \<open>page.screenshot({ path })\<close> writes the capture at the path; unlike \<open>writeFileSync\<close>, it
  first makes the directory of the path, and the directories above it, where they are
  missing. The directories are followed through one run, from those that exist at the
  call; the state a run returns is the files.
\<close>

definition screenshot_file :: "files \<Rightarrow> string \<Rightarrow> bytes \<Rightarrow> files" where
  "screenshot_file fs p shot = fs(p \<mapsto> shot)"

definition screenshot_directories :: "string set \<Rightarrow> string \<Rightarrow> string set" where
  "screenshot_directories dirs p = dirs \<union> set (mkdir_recursive (parent_directory p))"

definition unlinkSync :: "files \<Rightarrow> string \<Rightarrow> exn + files" where
  "unlinkSync fs p = (case fs p of None \<Rightarrow> Inl (Error ''ENOENT'' []) | Some b \<Rightarrow> Inr (fs(p := None)))"

section \<open>The browser and the other collaborators\<close>

text \<open>
  Everything a run reads from outside is a field of its environment: whether
  \<open>getBrowser\<close> and \<open>getPage\<close> reject (launch failure, navigation timeout), what the
  \<open>k\<close>-th \<open>page.screenshot\<close> call captures or throws, whether \<open>browser.close\<close> rejects,
  the clock at the \<open>k\<close>-th \<open>timestamp()\<close> call, the \<open>k\<close>-th value of \<open>Math.random()\<close>,
  the MD5 digest function of \<open>crypto\<close>, and the directories that exist when the tool
  function is called.
\<close>

record env =
  getBrowser :: "exn option"
  getPage :: "exn option"
  screenshot :: "nat \<Rightarrow> exn + bytes"
  browser_close :: "exn option"
  Date_now :: "nat \<Rightarrow> date"
  Math_random :: "nat \<Rightarrow> rat"
  md5_hex :: "bytes \<Rightarrow> string"
  directories :: "string set"

text \<open>
  The argument object \<open>{ name, viewport, threshold }\<close>; an absent key takes the default
  of the destructuring pattern. The names are strings and the threshold is a number:
  arguments of other JSON types are outside this model.
\<close>

record tool_args =
  arg_name :: "string option"
  arg_viewport :: "string option"
  arg_threshold :: "number option"

definition name_of :: "tool_args \<Rightarrow> string" where
  "name_of a = (case arg_name a of None \<Rightarrow> ''default'' | Some n \<Rightarrow> n)"

definition viewport_of :: "tool_args \<Rightarrow> string" where
  "viewport_of a = (case arg_viewport a of None \<Rightarrow> ''desktop'' | Some v \<Rightarrow> v)"

definition threshold_of :: "tool_args \<Rightarrow> number" where
  "threshold_of a = (case arg_threshold a of None \<Rightarrow> Num (1 / 10) | Some t \<Rightarrow> t)"

definition baselinePath :: "string \<Rightarrow> string \<Rightarrow> string" where
  "baselinePath name viewport =
     path_join BASELINES_DIR (''baseline_'' @ name @ ''_'' @ viewport @ ''.png'')"

definition currentPath :: "string \<Rightarrow> string \<Rightarrow> date \<Rightarrow> string" where
  "currentPath name viewport d =
     path_join DIFFS_DIR (''current_'' @ name @ ''_'' @ viewport @ ''_'' @ timestamp d @ ''.png'')"

definition diffPath :: "string \<Rightarrow> string \<Rightarrow> date \<Rightarrow> string" where
  "diffPath name viewport d =
     path_join DIFFS_DIR (''diff_'' @ name @ ''_'' @ viewport @ ''_'' @ timestamp d @ ''.png'')"

text \<open>
  \<open>try { ... } finally { await browser.close() }\<close>: the block's outcome stands unless
  closing the browser throws.
\<close>

definition finally_close :: "env \<Rightarrow> (exn + jsval) \<times> files \<Rightarrow> (exn + jsval) \<times> files" where
  "finally_close e r = (case browser_close e of None \<Rightarrow> r | Some x \<Rightarrow> (Inl x, snd r))"

section \<open>Visual regression\<close>

text \<open>
  Reading a Buffer at an index outside it gives \<open>undefined\<close> (here \<open>None\<close>), and
  \<open>undefined !== undefined\<close> is false.
\<close>

definition buf_at :: "bytes \<Rightarrow> int \<Rightarrow> 8 word option" where
  "buf_at b i = (if 0 \<le> i \<and> nat i < length b then Some (b ! nat i) else None)"

text \<open>
  The sampling loop \<open>for (let i = 0; i < sampleSize; i += 4)\<close>. Its \<open>k\<close>-th round, at
  \<open>i = 4 * k\<close>, draws the \<open>k\<close>-th random number.
\<close>

function sampleLoop :: "(nat \<Rightarrow> rat) \<Rightarrow> bytes \<Rightarrow> bytes \<Rightarrow> nat \<Rightarrow> nat \<Rightarrow> nat \<Rightarrow> nat" where
  "sampleLoop rnd baselineBuffer currentBuffer sampleSize i pixelDiffs =
     (if i < sampleSize then
        (let idx = \<lfloor>rnd (i div 4) * of_nat (min (length baselineBuffer) (length currentBuffer))\<rfloor>
         in sampleLoop rnd baselineBuffer currentBuffer sampleSize (i + 4)
              (if buf_at baselineBuffer idx \<noteq> buf_at currentBuffer idx
               then pixelDiffs + 1 else pixelDiffs))
      else pixelDiffs)"
  by pat_completeness auto
termination
  by (relation "measure (\<lambda>(rnd, b, c, sampleSize, i, pixelDiffs). sampleSize - i)") auto

declare sampleLoop.simps [simp del]

definition sampleSize_of :: "bytes \<Rightarrow> bytes \<Rightarrow> nat" where
  "sampleSize_of baselineBuffer currentBuffer =
     min (min (length baselineBuffer) (length currentBuffer)) 10000"

definition sizeDiff_of :: "bytes \<Rightarrow> bytes \<Rightarrow> number" where
  "sizeDiff_of baselineBuffer currentBuffer =
     js_div (Num \<bar>of_nat (length baselineBuffer) - of_nat (length currentBuffer)\<bar>)
            (Num (of_nat (length baselineBuffer)))"

definition diffPercentage_of :: "(nat \<Rightarrow> rat) \<Rightarrow> bytes \<Rightarrow> bytes \<Rightarrow> number" where
  "diffPercentage_of rnd baselineBuffer currentBuffer =
     (let sampleSize = sampleSize_of baselineBuffer currentBuffer;
          pixelDiffs = sampleLoop rnd baselineBuffer currentBuffer sampleSize 0 0
      in js_mul (js_div (Num (of_nat pixelDiffs)) (js_div (Num (of_nat sampleSize)) (Num 4)))
           (Num 100))"

text \<open>The result object of a comparison that reached the difference estimation.\<close>

definition comparisonResult ::
    "(nat \<Rightarrow> rat) \<Rightarrow> bytes \<Rightarrow> bytes \<Rightarrow> number \<Rightarrow> string \<Rightarrow> string \<Rightarrow> string \<Rightarrow> jsval" where
  "comparisonResult rnd baselineBuffer currentBuffer threshold bpath cpath dpath =
     (let sizeDiff = sizeDiff_of baselineBuffer currentBuffer;
          diffPercentage = diffPercentage_of rnd baselineBuffer currentBuffer;
          passed = js_le diffPercentage threshold
      in JObject
           [(''success'', JBool True),
            (''status'', JString (if passed then ''passed'' else ''failed'')),
            (''diffPercentage'', JNumber (js_div (Math_round (js_mul diffPercentage (Num 100))) (Num 100))),
            (''threshold'', JNumber threshold),
            (''baseline'', JString bpath),
            (''current'', JString cpath),
            (''diff'', JString dpath),
            (''sizeDiff'', JString (toFixed2 (js_mul sizeDiff (Num 100)) @ ''%''))])"

text \<open>The body of the \<open>try\<close> block of \<open>visualRegression\<close>.\<close>

definition visualRegression_try :: "env \<Rightarrow> tool_args \<Rightarrow> files \<Rightarrow> (exn + jsval) \<times> files" where
  "visualRegression_try e a fs =
     (let bpath = baselinePath (name_of a) (viewport_of a) in
      case getPage e of Some x \<Rightarrow> (Inl x, fs) | None \<Rightarrow>
      (let cpath = currentPath (name_of a) (viewport_of a) (Date_now e 0) in
       case screenshot e 0 of Inl x \<Rightarrow> (Inl x, fs) | Inr shot \<Rightarrow>
       (let fs1 = screenshot_file fs cpath shot;
            dirs1 = screenshot_directories (directories e) cpath in
        if \<not> existsSync fs1 bpath then
          (case readFileSync fs1 cpath of Inl x \<Rightarrow> (Inl x, fs1) | Inr buf \<Rightarrow>
           case writeFileSync fs1 dirs1 bpath buf of Inl x \<Rightarrow> (Inl x, fs1) | Inr fs2 \<Rightarrow>
             (Inr (JObject
                [(''success'', JBool True),
                 (''status'', JString ''baseline_created''),
                 (''baseline'', JString bpath),
                 (''message'', JString ''No baseline existed. Current screenshot saved as baseline.'')]),
              fs2))
        else
          (case readFileSync fs1 bpath of Inl x \<Rightarrow> (Inl x, fs1) | Inr baselineBuffer \<Rightarrow>
           case readFileSync fs1 cpath of Inl x \<Rightarrow> (Inl x, fs1) | Inr currentBuffer \<Rightarrow>
           if md5_hex e baselineBuffer = md5_hex e currentBuffer then
             (case unlinkSync fs1 cpath of Inl x \<Rightarrow> (Inl x, fs1) | Inr fs2 \<Rightarrow>
                (Inr (JObject
                   [(''success'', JBool True),
                    (''status'', JString ''identical''),
                    (''message'', JString ''Screenshots are identical'')]),
                 fs2))
           else
             (case screenshot e 1 of Inl x \<Rightarrow> (Inl x, fs1) | Inr comparison \<Rightarrow>
                (Inr (comparisonResult (Math_random e) baselineBuffer currentBuffer
                        (threshold_of a) bpath cpath
                        (diffPath (name_of a) (viewport_of a) (Date_now e 1))),
                 fs1))))))"

definition visualRegression :: "env \<Rightarrow> tool_args \<Rightarrow> files \<Rightarrow> (exn + jsval) \<times> files" where
  "visualRegression e a fs =
     (case getBrowser e of Some x \<Rightarrow> (Inl x, fs)
      | None \<Rightarrow> finally_close e (visualRegression_try e a fs))"

text \<open>\<open>updateBaseline\<close> and \<open>saveBaseline\<close> capture straight into the baseline path.\<close>

definition updateBaseline :: "env \<Rightarrow> tool_args \<Rightarrow> files \<Rightarrow> (exn + jsval) \<times> files" where
  "updateBaseline e a fs =
     (case getBrowser e of Some x \<Rightarrow> (Inl x, fs) | None \<Rightarrow>
      finally_close e
        (case getPage e of Some x \<Rightarrow> (Inl x, fs) | None \<Rightarrow>
         (let bpath = baselinePath (name_of a) (viewport_of a) in
          case screenshot e 0 of Inl x \<Rightarrow> (Inl x, fs) | Inr shot \<Rightarrow>
            (Inr (JObject
               [(''success'', JBool True),
                (''baseline'', JString bpath),
                (''message'', JString ''Baseline updated'')]),
             screenshot_file fs bpath shot))))"

definition saveBaseline :: "env \<Rightarrow> tool_args \<Rightarrow> files \<Rightarrow> (exn + jsval) \<times> files" where
  "saveBaseline e a fs =
     (case getBrowser e of Some x \<Rightarrow> (Inl x, fs) | None \<Rightarrow>
      finally_close e
        (case getPage e of Some x \<Rightarrow> (Inl x, fs) | None \<Rightarrow>
         (let filepath = baselinePath (name_of a) (viewport_of a) in
          case screenshot e 0 of Inl x \<Rightarrow> (Inl x, fs) | Inr shot \<Rightarrow>
            (Inr (JObject
               [(''success'', JBool True),
                (''baseline'', JString filepath),
                (''name'', JString (name_of a)),
                (''viewport'', JString (viewport_of a))]),
             screenshot_file fs filepath shot))))"

section \<open>The tool router and the command line\<close>

text \<open>
  The table \<open>tools\<close> maps some seventy names to functions that drive the browser; it is
  a parameter here, each function either returning its result or throwing.
  \<open>tools[name]\<close> also finds the properties every object inherits from
  \<open>Object.prototype\<close>; they are truthy and have no \<open>fn\<close>, so calling \<open>fn\<close> throws a
  TypeError inside the \<open>try\<close> block.
\<close>

type_synonym tool_table = "(string \<times> (jsval \<Rightarrow> exn + jsval)) list"

definition Object_prototype_keys :: "string list" where
  "Object_prototype_keys =
     [''constructor'', ''__defineGetter__'', ''__defineSetter__'', ''hasOwnProperty'',
      ''__lookupGetter__'', ''__lookupSetter__'', ''isPrototypeOf'', ''propertyIsEnumerable'',
      ''toString'', ''valueOf'', ''__proto__'', ''toLocaleString'']"

definition caught :: "exn \<Rightarrow> jsval" where
  "caught err = (case err of Error message stack \<Rightarrow>
     JObject [(''error'', JString message), (''stack'', JArray (map JString (take 3 stack)))])"

definition handleTool :: "tool_table \<Rightarrow> string \<Rightarrow> jsval \<Rightarrow> exn + jsval" where
  "handleTool tools name args =
     (case map_of tools name of
        Some fn \<Rightarrow> (case fn args of Inr result \<Rightarrow> Inr result | Inl err \<Rightarrow> Inr (caught err))
      | None \<Rightarrow>
          if name \<in> set Object_prototype_keys
          then Inr (caught (Error ''tools[name].fn is not a function'' []))
          else Inr (JObject
                 [(''error'', JString (''Unknown tool: '' @ name)),
                  (''available'', JArray (map (\<lambda>t. JString (fst t)) tools))]))"

text \<open>
  What one run of the script does with \<open>process.argv\<close>: it prints the help text, prints
  the result object, logs an error caught by the final \<open>.catch\<close>, or dies of an
  exception nothing catches. \<open>JSON.parse\<close> is a parameter.
\<close>

datatype outcome =
    HelpPrinted
  | Printed jsval
  | ErrorLogged exn
  | Uncaught exn

definition argv_at :: "string list \<Rightarrow> nat \<Rightarrow> string option" where
  "argv_at argv i = (if i < length argv then Some (argv ! i) else None)"

definition cli :: "(string \<Rightarrow> exn + jsval) \<Rightarrow> tool_table \<Rightarrow> string list \<Rightarrow> outcome" where
  "cli JSON_parse tools argv =
     (let command = argv_at argv 2 in
      case (case argv_at argv 3 of
              None \<Rightarrow> Inr (JObject [])
            | Some text \<Rightarrow> if text = [] then Inr (JObject []) else JSON_parse text) of
        Inl err \<Rightarrow> Uncaught err
      | Inr args \<Rightarrow>
          (case command of
             None \<Rightarrow> HelpPrinted
           | Some c \<Rightarrow>
               if c = ''help'' \<or> c = [] then HelpPrinted
               else (case handleTool tools c args of
                       Inr result \<Rightarrow> Printed result
                     | Inl err \<Rightarrow> ErrorLogged err)))"

section \<open>Example runs\<close>

text \<open>
  The environments of the concrete runs evaluated below. Every collaborator succeeds,
  both \<open>timestamp()\<close> calls fall into the same second, and the directories that exist
  are those the script makes sure of when it is loaded, with the directories above them. The snapshots are PNG files of
  one pixel: a red and a blue image of 70 bytes each, which differ at the offsets 44
  to 47, 50, 51 and 54 to 57, and a white image of 68 bytes. The digest function holds
  the MD5 digests of the buffers the examples use.
\<close>

definition example_red_png :: bytes where
  "example_red_png =
     [137, 80, 78, 71, 13, 10, 26, 10, 0, 0, 0, 13, 73, 72, 68, 82, 0, 0, 0, 1, 0, 0,
      0, 1, 8, 6, 0, 0, 0, 31, 21, 196, 137, 0, 0, 0, 13, 73, 68, 65, 84, 120, 218, 99,
      248, 207, 192, 240, 31, 0, 5, 0, 1, 255, 86, 199, 47, 13, 0, 0, 0, 0, 73, 69, 78,
      68, 174, 66, 96, 130]"

definition example_blue_png :: bytes where
  "example_blue_png =
     [137, 80, 78, 71, 13, 10, 26, 10, 0, 0, 0, 13, 73, 72, 68, 82, 0, 0, 0, 1, 0, 0,
      0, 1, 8, 6, 0, 0, 0, 31, 21, 196, 137, 0, 0, 0, 13, 73, 68, 65, 84, 120, 218, 99,
      96, 96, 248, 255, 31, 0, 3, 2, 1, 255, 57, 41, 25, 190, 0, 0, 0, 0, 73, 69, 78,
      68, 174, 66, 96, 130]"

definition example_white_png :: bytes where
  "example_white_png =
     [137, 80, 78, 71, 13, 10, 26, 10, 0, 0, 0, 13, 73, 72, 68, 82, 0, 0, 0, 1, 0, 0,
      0, 1, 8, 6, 0, 0, 0, 31, 21, 196, 137, 0, 0, 0, 11, 73, 68, 65, 84, 120, 218, 99,
      248, 15, 4, 0, 9, 251, 3, 253, 104, 250, 28, 204, 0, 0, 0, 0, 73, 69, 78, 68,
      174, 66, 96, 130]"

definition example_date :: date where
  "example_date = \<lparr>year = 2025, month = 1, day = 15, hours = 10, minutes = 30,
     seconds = 7, milliseconds = 250\<rparr>"

definition example_md5 :: "bytes \<Rightarrow> string" where
  "example_md5 b =
     (if b = example_red_png then ''340680474585d738bda590f1675a0f46''
      else if b = example_blue_png then ''b05bd4fef722c9172923be766eac1d26''
      else if b = example_white_png then ''a1c7f68bbf7d45c565df30555cd6fea5''
      else if b = replicate 20001 0 then ''c63ccf4228b19296fb37af5a0a948781''
      else if b = replicate 20002 0 then ''54c588e022624b8d402044febc899a0b''
      else [])"

definition example_directories :: "string set" where
  "example_directories = set (concat (map mkdir_recursive ensured_directories))"

definition example_env :: "bytes \<Rightarrow> (nat \<Rightarrow> rat) \<Rightarrow> env" where
  "example_env shot rnd =
     \<lparr>getBrowser = None, getPage = None, screenshot = (\<lambda>k. Inr shot), browser_close = None,
      Date_now = (\<lambda>k. example_date), Math_random = rnd, md5_hex = example_md5,
      directories = example_directories\<rparr>"

text \<open>
  Two sequences of random numbers: \<open>0.64\<close> at every call, which samples offset 44 each
  time, and \<open>0.64\<close> at the first call and \<open>0\<close> afterwards, which samples offset 44 once
  and then offset 0.
\<close>

definition random_all_differ :: "nat \<Rightarrow> rat" where
  "random_all_differ k = 16 / 25"

definition random_one_differs :: "nat \<Rightarrow> rat" where
  "random_one_differs k = (if k = 0 then 16 / 25 else 0)"

definition default_args :: tool_args where
  "default_args = \<lparr>arg_name = None, arg_viewport = None, arg_threshold = None\<rparr>"

text \<open>
  Three environments: the browser captures the blue image and one sample differs, the
  browser captures the blue image and every sample differs, the browser captures the red
  image. And a file system that holds one file, the red image as the baseline of the
  default key.
\<close>

definition env_one_differs :: env where
  "env_one_differs = example_env example_blue_png random_one_differs"

definition env_all_differ :: env where
  "env_all_differ = example_env example_blue_png random_all_differ"

definition env_red :: env where
  "env_red = example_env example_red_png random_all_differ"

definition example_files :: files where
  "example_files = [baselinePath ''default'' ''desktop'' \<mapsto> example_red_png]"

definition example_tools :: tool_table where
  "example_tools = [(''list_baselines'', \<lambda>args. Inr (JObject [(''success'', JBool True)]))]"

text \<open>\<open>JSON.parse\<close> on the two texts the examples pass: \<open>{}\<close> and the malformed \<open>{bad\<close>.\<close>

definition example_JSON_parse :: "string \<Rightarrow> exn + jsval" where
  "example_JSON_parse text =
     (if text = ''{}'' then Inr (JObject [])
      else Inl (Error ''Expected property name or } in JSON at position 1'' []))"

section \<open>Facts about paths and timestamps\<close>

lemma split_slash_not_Nil [simp]: "split_slash s \<noteq> []"
  by (induction s) (auto split: list.splits)

lemma split_slash_no_slash: "s \<in> set (split_slash x) \<Longrightarrow> CHR ''/'' \<notin> set s"
proof (induction x arbitrary: s)
  case Nil
  then show ?case by simp
next
  case (Cons c cs)
  show ?case
  proof (cases "c = CHR ''/''")
    case True
    with Cons show ?thesis by auto
  next
    case False
    obtain r rs where r: "split_slash cs = r # rs"
      by (cases "split_slash cs") auto
    with Cons False show ?thesis by auto
  qed
qed

lemma split_slash_append_slash:
  "split_slash (a @ CHR ''/'' # b) = split_slash a @ split_slash b"
  by (induction a) (auto split: list.splits)

lemma split_slash_snoc:
  "split_slash (s @ [c]) =
     (if c = CHR ''/'' then split_slash s @ [[]]
      else butlast (split_slash s) @ [last (split_slash s) @ [c]])"
proof (induction s)
  case Nil
  then show ?case by simp
next
  case (Cons a s)
  obtain r rs where r: "split_slash s = r # rs"
    by (cases "split_slash s") auto
  show ?case
    using Cons r by (cases rs) auto
qed

lemma last_split_slash_append:
  "CHR ''/'' \<notin> set y \<Longrightarrow> last (split_slash (x @ y)) = last (split_slash x) @ y"
proof (induction y rule: rev_induct)
  case Nil
  then show ?case by simp
next
  case (snoc c y)
  have "split_slash (x @ y @ [c]) = split_slash ((x @ y) @ [c])" by simp
  also have "last (\<dots>) = last (split_slash (x @ y)) @ [c]"
    using snoc.prems by (simp only: split_slash_snoc) auto
  finally show ?case using snoc by simp
qed

lemma split_slash_plain: "CHR ''/'' \<notin> set y \<Longrightarrow> last (split_slash y) = y"
  using last_split_slash_append [of y "[]"] by simp

lemma last_split_slash_prefix:
  assumes "CHR ''/'' \<in> set k"
  shows "last (split_slash (p @ k)) = last (split_slash k)"
proof -
  from assms obtain k1 k2 where k: "k = k1 @ CHR ''/'' # k2"
    by (auto dest: split_list)
  show ?thesis
    unfolding k using split_slash_append_slash [of "p @ k1" k2]
      split_slash_append_slash [of k1 k2] by simp
qed

lemma normalizeString_snoc:
  "s \<noteq> [] \<Longrightarrow> s \<noteq> ''.'' \<Longrightarrow> s \<noteq> ''..'' \<Longrightarrow>
   normalizeString ab res (ss @ [s]) = normalizeString ab res ss @ [s]"
  by (induction ab res ss rule: normalizeString.induct) (auto split: list.splits)

lemma join_slash_snoc: "xs \<noteq> [] \<Longrightarrow> join_slash (xs @ [s]) = join_slash xs @ ''/'' @ s"
  by (induction xs rule: join_slash.induct) auto

lemma last_split_join_slash:
  "CHR ''/'' \<notin> set s \<Longrightarrow> last (split_slash (CHR ''/'' # join_slash (xs @ [s]))) = s"
proof (cases "xs = []")
  case True
  assume "CHR ''/'' \<notin> set s"
  then show ?thesis using True split_slash_plain [of s] by simp
next
  case False
  assume s: "CHR ''/'' \<notin> set s"
  have "CHR ''/'' # join_slash (xs @ [s]) = (CHR ''/'' # join_slash xs) @ CHR ''/'' # s"
    using False by (simp add: join_slash_snoc)
  then show ?thesis
    using split_slash_append_slash [of "CHR ''/'' # join_slash xs" s] split_slash_plain [OF s]
    by simp
qed

lemma join_slash_snoc_not_Nil: "s \<noteq> [] \<Longrightarrow> join_slash (xs @ [s]) \<noteq> []"
  by (cases "xs = []") (auto simp: join_slash_snoc)

text \<open>The last segment of a joined path is the last segment of the file name.\<close>

lemma last_segment_path_join:
  assumes d: "d \<noteq> []" "hd d = CHR ''/''"
    and f: "f \<noteq> []" "last f \<noteq> CHR ''/''"
    and l: "last (split_slash f) \<noteq> []" "last (split_slash f) \<noteq> ''.''"
           "last (split_slash f) \<noteq> ''..''"
  shows "last (split_slash (path_join d f)) = last (split_slash f)"
proof -
  define l where "l = last (split_slash f)"
  define pre where "pre = split_slash d @ butlast (split_slash f)"
  have sl: "CHR ''/'' \<notin> set l"
    unfolding l_def by (rule split_slash_no_slash [of _ f]) simp
  have "split_slash (d @ CHR ''/'' # f) = split_slash d @ (butlast (split_slash f) @ [l])"
    unfolding l_def by (simp only: split_slash_append_slash append_butlast_last_id [OF split_slash_not_Nil])
  then have "split_slash (d @ CHR ''/'' # f) = pre @ [l]"
    by (simp add: pre_def)
  then have segs: "normalizeString False [] (split_slash (d @ CHR ''/'' # f)) =
      normalizeString False [] pre @ [l]"
    using l by (simp add: normalizeString_snoc l_def [symmetric])
  have "path_join d f = path_normalize (d @ CHR ''/'' # f)"
    using d f by (simp add: path_join_def)
  also have "\<dots> = CHR ''/'' # join_slash (normalizeString False [] pre @ [l])"
    using d f l join_slash_snoc_not_Nil [of l "normalizeString False [] pre"]
    by (simp add: path_normalize_def segs l_def [symmetric])
  finally show ?thesis using last_split_join_slash [OF sl] by (simp add: l_def)
qed

lemma BASELINES_DIR_eq:
  "BASELINES_DIR = ''/Users/yuripetrinim5/Downloads/symbiotic-reports/baselines''"
  by (simp add: BASELINES_DIR_def REPORTS_DIR_def OUTPUT_DIR_def path_join_def path_normalize_def
      split_slash.simps)

lemma DIFFS_DIR_eq:
  "DIFFS_DIR = ''/Users/yuripetrinim5/Downloads/symbiotic-reports/diffs''"
  by (simp add: DIFFS_DIR_def REPORTS_DIR_def OUTPUT_DIR_def path_join_def path_normalize_def
      split_slash.simps)

lemma digit_mem: "digit n \<in> set ''0123456789''"
  unfolding digit_def by (rule nth_mem) simp

lemma digits_mem: "set (digits n) \<subseteq> set ''0123456789''"
proof (induction n rule: digits.induct)
  case (1 n)
  show ?case
  proof (cases "n < 10")
    case True
    then show ?thesis using digit_mem [of n] by (subst digits.simps) simp
  next
    case False
    then show ?thesis using 1 digit_mem [of n] by (subst digits.simps) simp
  qed
qed

lemma pad_no_slash: "CHR ''/'' \<notin> set (pad w n)"
  using digits_mem [of n] by (auto simp: pad_def)

lemma toISOString_no_slash: "CHR ''/'' \<notin> set (toISOString d)"
  by (simp add: toISOString_def pad_no_slash)

lemma timestamp_no_slash: "CHR ''/'' \<notin> set (timestamp d)"
proof
  assume "CHR ''/'' \<in> set (timestamp d)"
  then have "CHR ''/'' \<in> set (map (\<lambda>c. if c = CHR '':'' \<or> c = CHR ''.'' then CHR ''-'' else c) (toISOString d))"
    unfolding timestamp_def by (rule in_set_takeD)
  then show False using toISOString_no_slash [of d] by (auto split: if_splits)
qed

lemma last_segment_prefixed:
  "CHR ''/'' \<notin> set p \<Longrightarrow>
   last (split_slash (p @ k)) = (if CHR ''/'' \<in> set k then last (split_slash k) else p @ k)"
  using last_split_slash_prefix [of k p] split_slash_plain [of "p @ k"] by simp

lemma last_segment_file:
  assumes d: "d \<noteq> []" "hd d = CHR ''/''"
    and sfx: "CHR ''/'' \<notin> set sfx" "3 \<le> length sfx"
  shows "last (split_slash (path_join d (x @ sfx))) = last (split_slash x) @ sfx"
proof -
  have l: "last (split_slash (x @ sfx)) = last (split_slash x) @ sfx"
    using sfx(1) by (rule last_split_slash_append)
  have ne: "sfx \<noteq> []" using sfx(2) by auto
  then have "last sfx \<in> set sfx" by simp
  then have ls: "last sfx \<noteq> CHR ''/''" using sfx(1) by metis
  have len: "3 \<le> length (last (split_slash (x @ sfx)))"
    using sfx(2) by (simp add: l)
  have "last (split_slash (path_join d (x @ sfx))) = last (split_slash (x @ sfx))"
  proof (rule last_segment_path_join [OF d])
    show "x @ sfx \<noteq> []" using ne by simp
    show "last (x @ sfx) \<noteq> CHR ''/''" using ne ls by simp
    show "last (split_slash (x @ sfx)) \<noteq> []" using len by auto
    show "last (split_slash (x @ sfx)) \<noteq> ''.''" using len by auto
    show "last (split_slash (x @ sfx)) \<noteq> ''..''" using len by auto
  qed
  then show ?thesis by (simp only: l)
qed

declare split_slash.simps [simp del]

lemma last_segment_baselinePath:
  "last (split_slash (baselinePath n v)) =
     last (split_slash (''baseline_'' @ n @ ''_'' @ v)) @ ''.png''"
  using last_segment_file [of BASELINES_DIR "''.png''" "''baseline_'' @ n @ ''_'' @ v"]
  by (simp add: baselinePath_def BASELINES_DIR_eq)

lemma last_segment_currentPath:
  "last (split_slash (currentPath n v d)) =
     last (split_slash (''current_'' @ n @ ''_'' @ v)) @ ''_'' @ timestamp d @ ''.png''"
  using last_segment_file [of DIFFS_DIR "''_'' @ timestamp d @ ''.png''" "''current_'' @ n @ ''_'' @ v"]
  by (simp add: currentPath_def DIFFS_DIR_eq timestamp_no_slash)

lemma last_segment_diffPath:
  "last (split_slash (diffPath n v d)) =
     last (split_slash (''diff_'' @ n @ ''_'' @ v)) @ ''_'' @ timestamp d @ ''.png''"
  using last_segment_file [of DIFFS_DIR "''_'' @ timestamp d @ ''.png''" "''diff_'' @ n @ ''_'' @ v"]
  by (simp add: diffPath_def DIFFS_DIR_eq timestamp_no_slash)

text \<open>The current snapshot is never written over the baseline of its own key.\<close>

lemma currentPath_neq_baselinePath: "currentPath n v d \<noteq> baselinePath n v"
proof
  assume "currentPath n v d = baselinePath n v"
  then have "last (split_slash (currentPath n v d)) = last (split_slash (baselinePath n v))"
    by simp
  then have eq: "last (split_slash (''current_'' @ (n @ ''_'' @ v))) @ ''_'' @ timestamp d @ ''.png'' =
      last (split_slash (''baseline_'' @ (n @ ''_'' @ v))) @ ''.png''"
    by (simp add: last_segment_currentPath last_segment_baselinePath)
  show False
  proof (cases "CHR ''/'' \<in> set (n @ ''_'' @ v)")
    case True
    then show False using eq by (simp only: last_split_slash_prefix) simp
  next
    case False
    then have "last (split_slash (''current_'' @ (n @ ''_'' @ v))) = ''current_'' @ (n @ ''_'' @ v)"
      "last (split_slash (''baseline_'' @ (n @ ''_'' @ v))) = ''baseline_'' @ (n @ ''_'' @ v)"
      by (simp_all add: split_slash_plain)
    then show False using eq by simp
  qed
qed

lemma diffPath_neq_currentPath:
  assumes "CHR ''/'' \<notin> set n" "CHR ''/'' \<notin> set v"
  shows "diffPath n v d2 \<noteq> currentPath n v d1"
proof
  assume "diffPath n v d2 = currentPath n v d1"
  then have "last (split_slash (diffPath n v d2)) = last (split_slash (currentPath n v d1))"
    by simp
  moreover have "last (split_slash (''current_'' @ n @ ''_'' @ v)) = ''current_'' @ n @ ''_'' @ v"
    "last (split_slash (''diff_'' @ n @ ''_'' @ v)) = ''diff_'' @ n @ ''_'' @ v"
    using assms by (simp_all add: split_slash_plain)
  ultimately show False
    by (simp add: last_segment_currentPath last_segment_diffPath)
qed

lemma split_slash_single: "CHR ''/'' \<notin> set y \<Longrightarrow> split_slash y = [y]"
  by (induction y) (auto simp: split_slash.simps)

lemma path_join_DIFFS_DIR_plain:
  assumes "CHR ''/'' \<notin> set f" "f \<noteq> []" "f \<noteq> ''.''" "f \<noteq> ''..''"
  shows "path_join DIFFS_DIR f = DIFFS_DIR @ ''/'' @ f"
proof -
  let ?d = "''/Users/yuripetrinim5/Downloads/symbiotic-reports/diffs''"
  have last_f: "last f \<noteq> CHR ''/''"
    using assms(1,2) last_in_set [of f] by metis
  have "split_slash (?d @ CHR ''/'' # f) = split_slash ?d @ [f]"
    using split_slash_single [OF assms(1)] by (simp only: split_slash_append_slash)
  then have segs: "normalizeString False [] (split_slash (?d @ CHR ''/'' # f)) =
      normalizeString False [] (split_slash ?d) @ [f]"
    using assms(2-4) by (simp add: normalizeString_snoc)
  have dsegs: "normalizeString False [] (split_slash ?d) =
      [''Users'', ''yuripetrinim5'', ''Downloads'', ''symbiotic-reports'', ''diffs'']"
    by (simp add: split_slash.simps)
  have "path_join ?d f = path_normalize (?d @ CHR ''/'' # f)"
    using assms(2) by (simp add: path_join_def)
  also have "\<dots> = ?d @ ''/'' @ f"
    using assms(2) last_f segs
    by (simp add: path_normalize_def dsegs)
  finally show ?thesis by (simp add: DIFFS_DIR_eq)
qed

lemma timestamp_example: "timestamp example_date = ''2025-01-15T10-30-07''"
  by (simp add: timestamp_def toISOString_def pad_def digits.simps digit_def example_date_def)

lemma example_paths:
  "baselinePath ''a/../b'' ''desktop'' =
     ''/Users/yuripetrinim5/Downloads/symbiotic-reports/baselines/b_desktop.png''"
  "currentPath ''a/../b'' ''desktop'' example_date =
     ''/Users/yuripetrinim5/Downloads/symbiotic-reports/diffs/b_desktop_2025-01-15T10-30-07.png''"
  "diffPath ''a/../b'' ''desktop'' example_date =
     ''/Users/yuripetrinim5/Downloads/symbiotic-reports/diffs/b_desktop_2025-01-15T10-30-07.png''"
  by (simp_all add: baselinePath_def currentPath_def diffPath_def timestamp_example
      BASELINES_DIR_eq DIFFS_DIR_eq path_join_def path_normalize_def split_slash.simps)

lemma diffPath_neq_baselinePath: "diffPath n v d \<noteq> baselinePath n v"
proof
  assume "diffPath n v d = baselinePath n v"
  then have "last (split_slash (diffPath n v d)) = last (split_slash (baselinePath n v))"
    by simp
  then have eq: "last (split_slash (''diff_'' @ (n @ ''_'' @ v))) @ ''_'' @ timestamp d @ ''.png'' =
      last (split_slash (''baseline_'' @ (n @ ''_'' @ v))) @ ''.png''"
    by (simp add: last_segment_diffPath last_segment_baselinePath)
  show False
  proof (cases "CHR ''/'' \<in> set (n @ ''_'' @ v)")
    case True
    then show False using eq by (simp only: last_split_slash_prefix) simp
  next
    case False
    then have "last (split_slash (''diff_'' @ (n @ ''_'' @ v))) = ''diff_'' @ (n @ ''_'' @ v)"
      "last (split_slash (''baseline_'' @ (n @ ''_'' @ v))) = ''baseline_'' @ (n @ ''_'' @ v)"
      by (simp_all add: split_slash_plain)
    then show False using eq by simp
  qed
qed

lemma diffPath_plain:
  assumes "CHR ''/'' \<notin> set n" "CHR ''/'' \<notin> set v"
  shows "diffPath n v d = DIFFS_DIR @ ''/diff_'' @ n @ ''_'' @ v @ ''_'' @ timestamp d @ ''.png''"
  using assms path_join_DIFFS_DIR_plain [of "''diff_'' @ n @ ''_'' @ v @ ''_'' @ timestamp d @ ''.png''"]
  by (simp add: diffPath_def timestamp_no_slash)










section \<open>Facts about the visual regression workflow\<close>



lemma visualRegression_identical:
  assumes "getBrowser e = None" "getPage e = None" "screenshot e 0 = Inr shot"
    "browser_close e = None"
    and "fs (baselinePath (name_of a) (viewport_of a)) = Some b"
    and "md5_hex e b = md5_hex e shot"
  shows "visualRegression e a fs =
    (Inr (JObject
       [(''success'', JBool True),
        (''status'', JString ''identical''),
        (''message'', JString ''Screenshots are identical'')]),
     fs(currentPath (name_of a) (viewport_of a) (Date_now e 0) := None))"
  using assms currentPath_neq_baselinePath [of "name_of a" "viewport_of a" "Date_now e 0"]
  by (simp add: visualRegression_def visualRegression_try_def finally_close_def
      existsSync_def readFileSync_def writeFileSync_def screenshot_file_def unlinkSync_def Let_def)

lemma visualRegression_compared:
  assumes "getBrowser e = None" "getPage e = None" "screenshot e 0 = Inr shot"
    "screenshot e 1 = Inr shot2" "browser_close e = None"
    and "fs (baselinePath (name_of a) (viewport_of a)) = Some b"
    and "md5_hex e b \<noteq> md5_hex e shot"
  shows "visualRegression e a fs =
    (Inr (comparisonResult (Math_random e) b shot (threshold_of a)
            (baselinePath (name_of a) (viewport_of a))
            (currentPath (name_of a) (viewport_of a) (Date_now e 0))
            (diffPath (name_of a) (viewport_of a) (Date_now e 1))),
     fs(currentPath (name_of a) (viewport_of a) (Date_now e 0) \<mapsto> shot))"
  using assms currentPath_neq_baselinePath [of "name_of a" "viewport_of a" "Date_now e 0"]
  by (simp add: visualRegression_def visualRegression_try_def finally_close_def
      existsSync_def readFileSync_def screenshot_file_def Let_def)

text \<open>Whatever happens, the baseline of the run's own key is only written where none was.\<close>

lemma visualRegression_keeps_baseline:
  assumes "fs (baselinePath (name_of a) (viewport_of a)) = Some b"
  shows "snd (visualRegression e a fs) (baselinePath (name_of a) (viewport_of a)) = Some b"
  using assms currentPath_neq_baselinePath [of "name_of a" "viewport_of a" "Date_now e 0"]
  by (auto simp: visualRegression_def visualRegression_try_def finally_close_def
      existsSync_def readFileSync_def writeFileSync_def screenshot_file_def unlinkSync_def Let_def
      split: option.splits sum.splits)

lemma field_status_comparisonResult:
  "field (comparisonResult rnd b c t bp cp dp) ''status'' =
     Some (JString (if js_le (diffPercentage_of rnd b c) t then ''passed'' else ''failed''))"
  by (simp add: comparisonResult_def Let_def)

lemma js_lt_not_le: "js_lt t d \<Longrightarrow> \<not> js_le d t"
  by (cases t; cases d) auto

lemma name_of_default [simp]: "name_of default_args = ''default''"
  by (simp add: name_of_def default_args_def)

lemma viewport_of_default [simp]: "viewport_of default_args = ''desktop''"
  by (simp add: viewport_of_def default_args_def)

lemma threshold_of_default [simp]: "threshold_of default_args = Num (1 / 10)"
  by (simp add: threshold_of_def default_args_def)

lemma name_of_threshold_update [simp]: "name_of (a\<lparr>arg_threshold := t\<rparr>) = name_of a"
  by (simp add: name_of_def)

lemma viewport_of_threshold_update [simp]: "viewport_of (a\<lparr>arg_threshold := t\<rparr>) = viewport_of a"
  by (simp add: viewport_of_def)

lemma threshold_of_update [simp]: "threshold_of (a\<lparr>arg_threshold := Some t\<rparr>) = t"
  by (simp add: threshold_of_def)

lemma example_env_simps [simp]:
  "getBrowser (example_env shot rnd) = None"
  "getPage (example_env shot rnd) = None"
  "screenshot (example_env shot rnd) k = Inr shot"
  "browser_close (example_env shot rnd) = None"
  "Date_now (example_env shot rnd) k = example_date"
  "Math_random (example_env shot rnd) = rnd"
  "md5_hex (example_env shot rnd) = example_md5"
  "directories (example_env shot rnd) = example_directories"
  by (simp_all add: example_env_def)

lemma floor_rat_numeral: "\<lfloor>(numeral m :: rat) / numeral n\<rfloor> = numeral m div numeral n"
  using floor_divide_of_int_eq [of "numeral m" "numeral n", where ?'a = rat] by simp

lemma field_diffPercentage_comparisonResult:
  "field (comparisonResult rnd b c t bp cp dp) ''diffPercentage'' =
     Some (JNumber (js_div (Math_round (js_mul (diffPercentage_of rnd b c) (Num 100))) (Num 100)))"
  by (simp add: comparisonResult_def Let_def)

lemma field_threshold_comparisonResult:
  "field (comparisonResult rnd b c t bp cp dp) ''threshold'' = Some (JNumber t)"
  by (simp add: comparisonResult_def Let_def)

lemma field_diff_comparisonResult:
  "field (comparisonResult rnd b c t bp cp dp) ''diff'' = Some (JString dp)"
  by (simp add: comparisonResult_def Let_def)

lemma field_sizeDiff_comparisonResult:
  "field (comparisonResult rnd b c t bp cp dp) ''sizeDiff'' =
     Some (JString (toFixed2 (js_mul (sizeDiff_of b c) (Num 100)) @ ''%''))"
  by (simp add: comparisonResult_def Let_def)

text \<open>Rounds of the sampling loop that draw equal bytes leave the count as it is.\<close>

lemma sampleLoop_unchanged:
  assumes "\<And>k. i div 4 \<le> k \<Longrightarrow>
      buf_at b \<lfloor>rnd k * of_nat (min (length b) (length c))\<rfloor> =
      buf_at c \<lfloor>rnd k * of_nat (min (length b) (length c))\<rfloor>"
  shows "sampleLoop rnd b c s i p = p"
  using assms
proof (induction rnd b c s i p rule: sampleLoop.induct)
  case (1 rnd b c s i p)
  show ?case
  proof (cases "i < s")
    case True
    have same: "buf_at b \<lfloor>rnd (i div 4) * of_nat (min (length b) (length c))\<rfloor> =
        buf_at c \<lfloor>rnd (i div 4) * of_nat (min (length b) (length c))\<rfloor>"
      by (rule "1.prems") simp
    have "sampleLoop rnd b c s (i + 4)
        (if buf_at b \<lfloor>rnd (i div 4) * of_nat (min (length b) (length c))\<rfloor> \<noteq>
            buf_at c \<lfloor>rnd (i div 4) * of_nat (min (length b) (length c))\<rfloor>
         then p + 1 else p) =
        (if buf_at b \<lfloor>rnd (i div 4) * of_nat (min (length b) (length c))\<rfloor> \<noteq>
            buf_at c \<lfloor>rnd (i div 4) * of_nat (min (length b) (length c))\<rfloor>
         then p + 1 else p)"
    proof (rule "1.IH" [OF True refl])
      fix k assume "(i + 4) div 4 \<le> k"
      then have "i div 4 \<le> k" by simp
      then show "buf_at b \<lfloor>rnd k * of_nat (min (length b) (length c))\<rfloor> =
          buf_at c \<lfloor>rnd k * of_nat (min (length b) (length c))\<rfloor>"
        by (rule "1.prems")
    qed
    then show ?thesis
      using True same by (subst sampleLoop.simps) (simp add: Let_def)
  next
    case False
    then show ?thesis by (subst sampleLoop.simps) simp
  qed
qed

lemma digit_eq_zero: "digit n = CHR ''0'' \<longleftrightarrow> n mod 10 = 0"
proof -
  have "n mod 10 = 0 \<or> n mod 10 = 1 \<or> n mod 10 = 2 \<or> n mod 10 = 3 \<or> n mod 10 = 4 \<or>
      n mod 10 = 5 \<or> n mod 10 = 6 \<or> n mod 10 = 7 \<or> n mod 10 = 8 \<or> n mod 10 = 9"
    by presburger
  then show ?thesis unfolding digit_def by auto
qed

lemma digits_not_Nil: "digits n \<noteq> []"
  by (subst digits.simps) simp

lemma digits_eq_zero: "digits m = ''0'' \<longleftrightarrow> m = 0"
proof (cases "m < 10")
  case True
  then show ?thesis using digit_eq_zero [of m] by (subst digits.simps) simp
next
  case False
  then have "digits m = digits (m div 10) @ [digit m]" by (subst digits.simps) simp
  moreover have "digits (m div 10) \<noteq> []" by (rule digits_not_Nil)
  ultimately show ?thesis using False by auto
qed

lemma toFixed2_zero:
  assumes "0 \<le> x"
  shows "toFixed2 (Num x) = ''0.00'' \<longleftrightarrow> x < 1 / 200"
proof -
  define n where "n = nat \<lfloor>x * 100 + 1 / 2\<rfloor>"
  have s: "toFixed2 (Num x) = digits (n div 100) @ ''.'' @ [digit (n div 10), digit n]"
    using assms by (simp add: n_def Let_def)
  have "toFixed2 (Num x) = ''0.00'' \<longleftrightarrow>
      digits (n div 100) = ''0'' \<and> digit (n div 10) = CHR ''0'' \<and> digit n = CHR ''0''"
    unfolding s by (auto simp: append_eq_Cons_conv Cons_eq_append_conv digits_not_Nil)
  also have "\<dots> \<longleftrightarrow> n div 100 = 0 \<and> (n div 10) mod 10 = 0 \<and> n mod 10 = 0"
    by (simp add: digits_eq_zero digit_eq_zero)
  also have "\<dots> \<longleftrightarrow> n = 0"
  proof
    assume a: "n div 100 = 0 \<and> n div 10 mod 10 = 0 \<and> n mod 10 = 0"
    then have "n < 10 * 10" by (simp add: div_eq_0_iff)
    then have "n div 10 < 10" by (rule less_mult_imp_div_less)
    then have "n div 10 = 0" using a by simp
    then have "n < 10" by (simp add: div_eq_0_iff)
    then show "n = 0" using a by simp
  qed simp
  also have "\<dots> \<longleftrightarrow> \<lfloor>x * 100 + 1 / 2\<rfloor> \<le> 0" by (simp add: n_def)
  also have "\<dots> \<longleftrightarrow> x * 100 + 1 / 2 < 1" by (simp add: floor_le_iff)
  also have "\<dots> \<longleftrightarrow> x < 1 / 200" by auto
  finally show ?thesis .
qed

lemma sizeDiff_text_zero:
  "toFixed2 (js_mul (sizeDiff_of b c) (Num 100)) @ ''%'' = ''0.00%'' \<longleftrightarrow>
     20000 * \<bar>int (length b) - int (length c)\<bar> < int (length b)"
proof (cases "length b = 0")
  case True
  then show ?thesis by (simp add: sizeDiff_of_def)
next
  case False
  define d :: rat where "d = \<bar>of_nat (length b) - of_nat (length c)\<bar>"
  define l :: rat where "l = of_nat (length b)"
  have l: "0 < l" using False by (simp add: l_def)
  have d: "0 \<le> d" by (simp add: d_def)
  have "js_mul (sizeDiff_of b c) (Num 100) = Num (d / l * 100)"
    using False by (simp add: sizeDiff_of_def d_def l_def)
  then have "toFixed2 (js_mul (sizeDiff_of b c) (Num 100)) @ ''%'' = ''0.00%'' \<longleftrightarrow>
      toFixed2 (Num (d / l * 100)) = ''0.00''"
    by simp
  also have "\<dots> \<longleftrightarrow> d / l * 100 < 1 / 200"
    using d l by (intro toFixed2_zero) simp
  also have "\<dots> \<longleftrightarrow> 20000 * d < l"
    using l by (simp add: field_simps)
  also have "\<dots> \<longleftrightarrow> 20000 * \<bar>int (length b) - int (length c)\<bar> < int (length b)"
  proof -
    have "d = of_int \<bar>int (length b) - int (length c)\<bar>" by (simp add: d_def)
    moreover have "l = of_int (int (length b))" by (simp add: l_def)
    ultimately have "20000 * d < l \<longleftrightarrow>
        (of_int (20000 * \<bar>int (length b) - int (length c)\<bar>) :: rat) < of_int (int (length b))"
      by simp
    then show ?thesis by (simp only: of_int_less_iff)
  qed
  finally show ?thesis .
qed

lemma name_of_arg_name [simp]: "name_of (a\<lparr>arg_name := Some n\<rparr>) = n"
  by (simp add: name_of_def)

lemma viewport_of_arg_name [simp]: "viewport_of (a\<lparr>arg_name := n\<rparr>) = viewport_of a"
  by (simp add: viewport_of_def)

lemma threshold_of_arg_name [simp]: "threshold_of (a\<lparr>arg_name := n\<rparr>) = threshold_of a"
  by (simp add: threshold_of_def)

text \<open>The loop counts at most one difference for each round.\<close>

lemma sampleLoop_upper: "sampleLoop rnd b c s i p \<le> p + (s - i + 3) div 4"
proof (induction rnd b c s i p rule: sampleLoop.induct)
  case (1 rnd b c s i p)
  show ?case
  proof (cases "i < s")
    case True
    let ?p = "if buf_at b \<lfloor>rnd (i div 4) * of_nat (min (length b) (length c))\<rfloor> \<noteq>
            buf_at c \<lfloor>rnd (i div 4) * of_nat (min (length b) (length c))\<rfloor>
         then p + 1 else p"
    have "sampleLoop rnd b c s (i + 4) ?p \<le> ?p + (s - (i + 4) + 3) div 4"
      by (rule "1.IH" [OF True refl])
    moreover have "?p \<le> p + 1" by simp
    moreover have "1 + (s - (i + 4) + 3) div 4 \<le> (s - i + 3) div 4"
      using True by arith
    ultimately have "sampleLoop rnd b c s (i + 4) ?p \<le> p + (s - i + 3) div 4"
      by linarith
    then show ?thesis
      using True by (subst sampleLoop.simps) (simp add: Let_def)
  next
    case False
    then show ?thesis by (subst sampleLoop.simps) simp
  qed
qed

text \<open>
  Where the sample size is a positive multiple of four (as it is when both files hold
  at least 10000 bytes), the diffPercentage is a number between 0 and 100.
\<close>

lemma diffPercentage_in_range:
  assumes "4 dvd sampleSize_of b c" "0 < sampleSize_of b c"
  shows "\<exists>q. diffPercentage_of rnd b c = Num q \<and> 0 \<le> q \<and> q \<le> 100"
proof -
  define s where "s = sampleSize_of b c"
  define p where "p = sampleLoop rnd b c s 0 0"
  from assms obtain k where k: "s = 4 * k" "0 < k"
    unfolding s_def by (auto simp: dvd_def)
  have "p \<le> (s + 3) div 4"
    using sampleLoop_upper [of rnd b c s 0 0] by (simp add: p_def)
  then have pk: "p \<le> k" using k by simp
  have "diffPercentage_of rnd b c =
      js_mul (js_div (Num (of_nat p)) (js_div (Num (of_nat s)) (Num 4))) (Num 100)"
    by (simp add: diffPercentage_of_def Let_def s_def p_def)
  then have "diffPercentage_of rnd b c = Num (of_nat p / of_nat k * 100)"
    using k by simp
  moreover have "(of_nat p :: rat) \<le> of_nat k" using pk by simp
  then have "(of_nat p :: rat) / of_nat k * 100 \<le> 100"
    using k by (simp add: pos_divide_le_eq)
  moreover have "0 \<le> (of_nat p :: rat) / of_nat k * 100" by simp
  ultimately show ?thesis by blast
qed

lemma sampleSize_large:
  "10000 \<le> length b \<Longrightarrow> 10000 \<le> length c \<Longrightarrow> sampleSize_of b c = 10000"
  by (simp add: sampleSize_of_def)

section \<open>Facts about the example runs\<close>

lemma neq_by_length: "length xs \<noteq> length ys \<Longrightarrow> xs \<noteq> ys"
  by auto

lemma length_example_png [simp]:
  "length example_red_png = 70" "length example_blue_png = 70" "length example_white_png = 68"
  by (simp_all add: example_red_png_def example_blue_png_def example_white_png_def)

lemma example_png_distinct:
  "example_red_png \<noteq> example_blue_png" "example_white_png \<noteq> example_red_png"
  "example_white_png \<noteq> example_blue_png"
  by (simp_all add: example_red_png_def example_blue_png_def example_white_png_def)

lemma example_md5_png:
  "example_md5 example_red_png = ''340680474585d738bda590f1675a0f46''"
  "example_md5 example_blue_png = ''b05bd4fef722c9172923be766eac1d26''"
  "example_md5 example_white_png = ''a1c7f68bbf7d45c565df30555cd6fea5''"
  using example_png_distinct by (auto simp: example_md5_def)

lemma example_envs [simp]:
  "getBrowser env_one_differs = None" "getPage env_one_differs = None"
  "screenshot env_one_differs k = Inr example_blue_png" "browser_close env_one_differs = None"
  "Date_now env_one_differs k = example_date" "Math_random env_one_differs = random_one_differs"
  "md5_hex env_one_differs = example_md5"
  "getBrowser env_all_differ = None" "getPage env_all_differ = None"
  "screenshot env_all_differ k = Inr example_blue_png" "browser_close env_all_differ = None"
  "Date_now env_all_differ k = example_date" "Math_random env_all_differ = random_all_differ"
  "md5_hex env_all_differ = example_md5"
  "getBrowser env_red = None" "getPage env_red = None"
  "screenshot env_red k = Inr example_red_png" "browser_close env_red = None"
  "Date_now env_red k = example_date" "md5_hex env_red = example_md5"
  "directories env_one_differs = example_directories"
  "directories env_all_differ = example_directories"
  "directories env_red = example_directories"
  by (simp_all add: env_one_differs_def env_all_differ_def env_red_def)

lemma example_files_simps [simp]:
  "example_files (baselinePath ''default'' ''desktop'') = Some example_red_png"
  "example_files (diffPath ''default'' ''desktop'' d) = None"
  "example_files (currentPath ''default'' ''desktop'' d) = None"
  by (simp_all add: example_files_def diffPath_neq_baselinePath currentPath_neq_baselinePath)

lemma example_md5_20001:
  "example_md5 (replicate 20001 0) = ''c63ccf4228b19296fb37af5a0a948781''"
  "example_md5 (replicate 20002 0) = ''54c588e022624b8d402044febc899a0b''"
proof -
  have a: "replicate 20001 (0::8 word) \<noteq> example_red_png"
    "replicate 20001 (0::8 word) \<noteq> example_blue_png"
    "replicate 20001 (0::8 word) \<noteq> example_white_png"
    "replicate 20002 (0::8 word) \<noteq> example_red_png"
    "replicate 20002 (0::8 word) \<noteq> example_blue_png"
    "replicate 20002 (0::8 word) \<noteq> example_white_png"
    by (rule neq_by_length, simp)+
  show "example_md5 (replicate 20001 0) = ''c63ccf4228b19296fb37af5a0a948781''"
    using a by (simp add: example_md5_def)
  show "example_md5 (replicate 20002 0) = ''54c588e022624b8d402044febc899a0b''"
    using a by (simp add: example_md5_def)
qed

lemma buf_at_example:
  "buf_at example_red_png 44 = Some 248" "buf_at example_blue_png 44 = Some 96"
  "buf_at example_red_png 0 = Some 137" "buf_at example_blue_png 0 = Some 137"
  by (simp_all add: buf_at_def example_red_png_def example_blue_png_def)

text \<open>Eighteen rounds, at \<open>i = 0, 4, \<dots>, 68\<close>, each sampling offset 44.\<close>

lemma sampleLoop_all_differ:
  "sampleLoop random_all_differ example_red_png example_blue_png 70 0 0 = 18"
  by (simp add: sampleLoop.simps random_all_differ_def floor_rat_numeral buf_at_example Let_def)

lemma sampleLoop_one_differs:
  "sampleLoop random_one_differs example_red_png example_blue_png 70 0 0 = 1"
proof -
  have rest: "sampleLoop random_one_differs example_red_png example_blue_png 70 4 1 = 1"
  proof (rule sampleLoop_unchanged)
    fix k :: nat assume "4 div 4 \<le> k"
    then have "k \<noteq> 0" by simp
    then show "buf_at example_red_png
          \<lfloor>random_one_differs k * of_nat (min (length example_red_png) (length example_blue_png))\<rfloor> =
        buf_at example_blue_png
          \<lfloor>random_one_differs k * of_nat (min (length example_red_png) (length example_blue_png))\<rfloor>"
      by (simp add: random_one_differs_def buf_at_example)
  qed
  show ?thesis
    using rest
    by (subst sampleLoop.simps)
      (simp add: random_one_differs_def floor_rat_numeral buf_at_example Let_def)
qed

lemma diffPercentage_all_differ:
  "diffPercentage_of random_all_differ example_red_png example_blue_png = Num (720 / 7)"
  by (simp add: diffPercentage_of_def sampleSize_of_def Let_def sampleLoop_all_differ)

lemma diffPercentage_one_differs:
  "diffPercentage_of random_one_differs example_red_png example_blue_png = Num (40 / 7)"
  by (simp add: diffPercentage_of_def sampleSize_of_def Let_def sampleLoop_one_differs)

section \<open>Facts about the command line\<close>

text \<open>Whatever the tool does, \<open>handleTool\<close> resolves with an object.\<close>

lemma handleTool_resolves: "\<exists>r. handleTool tools name args = Inr r"
  by (simp add: handleTool_def split: option.splits sum.splits)

text \<open>
  Once the argument text is parsed (or absent) and a command other than \<open>help\<close> is
  given, the script prints one object.
\<close>

lemma cli_prints_object:
  assumes "argv_at argv 2 = Some c" "c \<noteq> ''help''" "c \<noteq> []"
    and "argv_at argv 3 = None \<or> argv_at argv 3 = Some [] \<or>
         (\<exists>text args. argv_at argv 3 = Some text \<and> JSON_parse text = Inr args)"
  shows "\<exists>r. cli JSON_parse tools argv = Printed r"
proof -
  have "\<exists>args. (case argv_at argv 3 of None \<Rightarrow> Inr (JObject [])
      | Some text \<Rightarrow> if text = [] then Inr (JObject []) else JSON_parse text) = Inr args"
    using assms(4) by auto
  then obtain args where "(case argv_at argv 3 of None \<Rightarrow> Inr (JObject [])
      | Some text \<Rightarrow> if text = [] then Inr (JObject []) else JSON_parse text) = Inr args"
    by blast
  moreover obtain r where "handleTool tools c args = Inr r"
    using handleTool_resolves by blast
  ultimately show ?thesis
    using assms(1-3) by (simp add: cli_def)
qed

section \<open>The claims\<close>

text \<open>
  C1: when a baseline exists and differs from the captured snapshot (and MD5 tells the two
  apart), the status is passed if the measured diffPercentage is at most the threshold
  (0.1 when the caller gives none) and failed otherwise; so, the measurement fixed, every
  threshold at or above it passes and every threshold below it fails.
\<close>

theorem visualRegression_verdict:
  assumes "getBrowser e = None" "getPage e = None" "screenshot e 0 = Inr c"
    "screenshot e 1 = Inr c2" "browser_close e = None"
    and "fs (baselinePath (name_of a) (viewport_of a)) = Some b"
    and "b \<noteq> c" and "inj_on (md5_hex e) {b, c}"
  shows "(\<exists>r. fst (visualRegression e a fs) = Inr r \<and>
            field r ''status'' = Some (JString
              (if js_le (diffPercentage_of (Math_random e) b c) (threshold_of a)
               then ''passed'' else ''failed''))) \<and>
         (arg_threshold a = None \<longrightarrow> threshold_of a = Num (1 / 10)) \<and>
         (\<forall>t. \<exists>r. fst (visualRegression e (a\<lparr>arg_threshold := Some t\<rparr>) fs) = Inr r \<and>
            (js_le (diffPercentage_of (Math_random e) b c) t \<longrightarrow>
               field r ''status'' = Some (JString ''passed'')) \<and>
            (js_lt t (diffPercentage_of (Math_random e) b c) \<longrightarrow>
               field r ''status'' = Some (JString ''failed'')))"
proof -
  have md5: "md5_hex e b \<noteq> md5_hex e c"
    using assms(7,8) by (auto simp: inj_on_def)
  have run: "visualRegression e a' fs =
      (Inr (comparisonResult (Math_random e) b c (threshold_of a')
            (baselinePath (name_of a') (viewport_of a'))
            (currentPath (name_of a') (viewport_of a') (Date_now e 0))
            (diffPath (name_of a') (viewport_of a') (Date_now e 1))),
       fs(currentPath (name_of a') (viewport_of a') (Date_now e 0) \<mapsto> c))"
    if "name_of a' = name_of a" "viewport_of a' = viewport_of a" for a'
    using assms(1-6) md5 that by (intro visualRegression_compared) simp_all
  have first: "\<exists>r. fst (visualRegression e a fs) = Inr r \<and>
            field r ''status'' = Some (JString
              (if js_le (diffPercentage_of (Math_random e) b c) (threshold_of a)
               then ''passed'' else ''failed''))"
    by (simp add: run field_status_comparisonResult)
  have dflt: "arg_threshold a = None \<longrightarrow> threshold_of a = Num (1 / 10)"
    by (simp add: threshold_of_def)
  have mono: "\<exists>r. fst (visualRegression e (a\<lparr>arg_threshold := Some t\<rparr>) fs) = Inr r \<and>
            (js_le (diffPercentage_of (Math_random e) b c) t \<longrightarrow>
               field r ''status'' = Some (JString ''passed'')) \<and>
            (js_lt t (diffPercentage_of (Math_random e) b c) \<longrightarrow>
               field r ''status'' = Some (JString ''failed''))" for t
    using js_lt_not_le [of t "diffPercentage_of (Math_random e) b c"]
    by (simp add: run field_status_comparisonResult)
  show ?thesis using first dflt mono by blast
qed

theorem visualRegression_verdict_witness:
  "getBrowser env_one_differs = None \<and> getPage env_one_differs = None \<and>
   screenshot env_one_differs 0 = Inr example_blue_png \<and>
   screenshot env_one_differs 1 = Inr example_blue_png \<and>
   browser_close env_one_differs = None \<and>
   example_files (baselinePath (name_of default_args) (viewport_of default_args)) =
     Some example_red_png \<and>
   example_red_png \<noteq> example_blue_png \<and>
   inj_on (md5_hex env_one_differs) {example_red_png, example_blue_png} \<and>
   diffPercentage_of (Math_random env_one_differs) example_red_png example_blue_png = Num (40 / 7) \<and>
   (\<exists>r. fst (visualRegression env_one_differs default_args example_files) = Inr r \<and>
        field r ''status'' = Some (JString ''failed'')) \<and>
   (\<exists>r. fst (visualRegression env_one_differs (default_args\<lparr>arg_threshold := Some (Num 10)\<rparr>)
             example_files) = Inr r \<and>
        field r ''status'' = Some (JString ''passed''))"
proof -
  have inj: "inj_on example_md5 {example_red_png, example_blue_png}"
    using example_png_distinct by (simp add: example_md5_png)
  note inst = visualRegression_verdict
    [of env_one_differs example_blue_png example_blue_png example_files default_args
        example_red_png]
  have all: "\<forall>t. \<exists>r. fst (visualRegression env_one_differs
             (default_args\<lparr>arg_threshold := Some t\<rparr>) example_files) = Inr r \<and>
            (js_le (Num (40 / 7)) t \<longrightarrow> field r ''status'' = Some (JString ''passed'')) \<and>
            (js_lt t (Num (40 / 7)) \<longrightarrow> field r ''status'' = Some (JString ''failed''))"
    and one: "\<exists>r. fst (visualRegression env_one_differs default_args example_files) = Inr r \<and>
        field r ''status'' = Some (JString ''failed'')"
    using inst inj example_png_distinct by (simp_all add: diffPercentage_one_differs)
  from all have "\<exists>r. fst (visualRegression env_one_differs
             (default_args\<lparr>arg_threshold := Some (Num 10)\<rparr>) example_files) = Inr r \<and>
        field r ''status'' = Some (JString ''passed'')"
    by (drule_tac x = "Num 10" in spec) simp
  with one inj example_png_distinct show ?thesis
    by (simp add: diffPercentage_one_differs)
qed

text \<open>
  C2: when the baseline's bytes equal the captured snapshot's, the result is the object
  \<open>{success, status: 'identical', message}\<close>: it has no diffPercentage field. Nothing is
  estimated (the outcome does not depend on the random numbers, the threshold or a second
  capture), and the current snapshot's file is removed.
\<close>

theorem visualRegression_identical_result:
  assumes "getBrowser e = None" "getPage e = None" "screenshot e 0 = Inr shot"
    "browser_close e = None"
    and "fs (baselinePath (name_of a) (viewport_of a)) = Some shot"
  shows "\<exists>r fs'. visualRegression e a fs = (Inr r, fs') \<and>
      r = JObject [(''success'', JBool True), (''status'', JString ''identical''),
                   (''message'', JString ''Screenshots are identical'')] \<and>
      field r ''status'' = Some (JString ''identical'') \<and>
      field r ''diffPercentage'' = None \<and>
      fs' = fs(currentPath (name_of a) (viewport_of a) (Date_now e 0) := None) \<and>
      (\<forall>rnd t s2 d2.
         visualRegression
           (e\<lparr>Math_random := rnd, screenshot := (screenshot e)(1 := s2),
              Date_now := (Date_now e)(1 := d2)\<rparr>)
           (a\<lparr>arg_threshold := t\<rparr>) fs = (Inr r, fs'))"
proof -
  let ?e = "\<lambda>rnd s2 d2. e\<lparr>Math_random := rnd, screenshot := (screenshot e)(1 := s2),
              Date_now := (Date_now e)(1 := d2)\<rparr>"
  have run: "visualRegression e a fs =
    (Inr (JObject
       [(''success'', JBool True),
        (''status'', JString ''identical''),
        (''message'', JString ''Screenshots are identical'')]),
     fs(currentPath (name_of a) (viewport_of a) (Date_now e 0) := None))"
    using assms by (intro visualRegression_identical) simp_all
  have other: "visualRegression (?e rnd s2 d2) (a\<lparr>arg_threshold := t\<rparr>) fs =
      visualRegression e a fs" for rnd s2 d2 t
    using visualRegression_identical [of "?e rnd s2 d2" shot fs "a\<lparr>arg_threshold := t\<rparr>" shot]
      assms
    by (simp add: run)
  show ?thesis
    using other by (simp add: run)
qed

theorem visualRegression_identical_result_witness:
  "getBrowser env_red = None \<and> getPage env_red = None \<and>
   screenshot env_red 0 = Inr example_red_png \<and> browser_close env_red = None \<and>
   example_files (baselinePath (name_of default_args) (viewport_of default_args)) =
     Some example_red_png \<and>
   (\<exists>r fs'. visualRegression env_red default_args example_files = (Inr r, fs') \<and>
      field r ''status'' = Some (JString ''identical'') \<and>
      field r ''diffPercentage'' = None \<and>
      fs' = example_files(currentPath ''default'' ''desktop'' example_date := None))"
  using visualRegression_identical_result [of env_red example_red_png example_files default_args]
  by simp

text \<open>
  The claim as the spec has it, that an identical result carries diffPercentage 0, fails
  on the run that captures the bytes of its baseline: the result has no such field.
\<close>

theorem identical_result_diffPercentage_counterexample:
  "example_files (baselinePath ''default'' ''desktop'') = Some example_red_png \<and>
   screenshot env_red 0 = Inr example_red_png \<and>
   fst (visualRegression env_red default_args example_files) =
     Inr (JObject [(''success'', JBool True), (''status'', JString ''identical''),
                   (''message'', JString ''Screenshots are identical'')]) \<and>
   field (JObject [(''success'', JBool True), (''status'', JString ''identical''),
                   (''message'', JString ''Screenshots are identical'')]) ''diffPercentage''
     \<noteq> Some (JNumber (Num 0))"
  using visualRegression_identical
    [of env_red example_red_png example_files default_args example_red_png]
  by simp




text \<open>
  C4 (the code departs from the claim): the argument text is parsed at the top level of
  the script, before \<open>handleTool\<close> and outside every \<open>try\<close> and \<open>catch\<close>; when
  \<open>JSON.parse\<close> throws, the exception is uncaught and no object is printed.
\<close>

theorem cli_malformed_argument_uncaught:
  assumes "JSON_parse text = Inl err" "text \<noteq> []"
  shows "cli JSON_parse tools (node # script # command # text # rest) = Uncaught err \<and>
     (\<forall>r. cli JSON_parse tools (node # script # command # text # rest) \<noteq> Printed r)"
  using assms by (simp add: cli_def argv_at_def)

theorem cli_malformed_argument_uncaught_witness:
  "example_JSON_parse ''{bad'' = Inl (Error ''Expected property name or } in JSON at position 1'' []) \<and>
   ''{bad'' \<noteq> [] \<and>
   cli example_JSON_parse example_tools [''node'', ''server.js'', ''visual_regression'', ''{bad''] =
     Uncaught (Error ''Expected property name or } in JSON at position 1'' [])"
  using cli_malformed_argument_uncaught
    [of example_JSON_parse "''{bad''" "Error ''Expected property name or } in JSON at position 1'' []"
        example_tools "''node''" "''server.js''" "''visual_regression''" "[]"]
  by (simp add: example_JSON_parse_def)

text \<open>
  C5 (the code departs from the claim): with two PNG files of 70 bytes, the loop runs 18
  times (\<open>i = 0, 4, \<dots>, 68\<close>) while the divisor is \<open>70 / 4 = 17.5\<close>; when every sample
  hits an offset where the files differ, the diffPercentage is \<open>18 / 17.5 * 100\<close>, about
  102.86.
\<close>

theorem diffPercentage_exceeds_100:
  "fst (visualRegression env_all_differ default_args example_files) =
     Inr (JObject
       [(''success'', JBool True),
        (''status'', JString ''failed''),
        (''diffPercentage'', JNumber (Num (10286 / 100))),
        (''threshold'', JNumber (Num (1 / 10))),
        (''baseline'', JString (baselinePath ''default'' ''desktop'')),
        (''current'', JString (currentPath ''default'' ''desktop'' example_date)),
        (''diff'', JString (diffPath ''default'' ''desktop'' example_date)),
        (''sizeDiff'', JString ''0.00%'')]) \<and>
   sampleSize_of example_red_png example_blue_png = 70 \<and>
   sampleLoop random_all_differ example_red_png example_blue_png 70 0 0 = 18 \<and>
   diffPercentage_of random_all_differ example_red_png example_blue_png = Num (720 / 7) \<and>
   \<not> js_le (Num (720 / 7)) (Num 100)"
proof -
  have "visualRegression env_all_differ default_args example_files =
    (Inr (comparisonResult random_all_differ example_red_png example_blue_png (Num (1 / 10))
            (baselinePath ''default'' ''desktop'')
            (currentPath ''default'' ''desktop'' example_date)
            (diffPath ''default'' ''desktop'' example_date)),
     example_files(currentPath ''default'' ''desktop'' example_date \<mapsto> example_blue_png))"
    using visualRegression_compared
      [of env_all_differ example_blue_png example_blue_png example_files default_args
          example_red_png]
    by (simp add: example_md5_png)
  then show ?thesis
    by (simp add: comparisonResult_def diffPercentage_all_differ sampleLoop_all_differ
        sampleSize_of_def sizeDiff_of_def Let_def floor_rat_numeral digits.simps digit_def)
qed

text \<open>
  C6: a run of visual_regression leaves an existing baseline of its key as it is,
  whatever the outcome (a verdict or an exception); update_baseline and save_baseline
  are the operations that replace it with the new capture.
\<close>

theorem visualRegression_never_overwrites_baseline:
  assumes "fs (baselinePath (name_of a) (viewport_of a)) = Some b"
  shows "snd (visualRegression e a fs) (baselinePath (name_of a) (viewport_of a)) = Some b \<and>
     (getBrowser e = None \<and> getPage e = None \<and> screenshot e 0 = Inr shot \<longrightarrow>
        snd (updateBaseline e a fs) (baselinePath (name_of a) (viewport_of a)) = Some shot \<and>
        snd (saveBaseline e a fs) (baselinePath (name_of a) (viewport_of a)) = Some shot)"
  using assms visualRegression_keeps_baseline [of fs a b e]
  by (simp add: updateBaseline_def saveBaseline_def finally_close_def screenshot_file_def Let_def
      split: option.splits)

theorem visualRegression_never_overwrites_baseline_witness:
  "example_files (baselinePath (name_of default_args) (viewport_of default_args)) =
     Some example_red_png \<and>
   snd (visualRegression env_one_differs default_args example_files)
     (baselinePath ''default'' ''desktop'') = Some example_red_png \<and>
   snd (updateBaseline env_one_differs default_args example_files)
     (baselinePath ''default'' ''desktop'') = Some example_blue_png \<and>
   snd (saveBaseline env_one_differs default_args example_files)
     (baselinePath ''default'' ''desktop'') = Some example_blue_png"
  using visualRegression_never_overwrites_baseline
    [of example_files default_args example_red_png env_one_differs example_blue_png]
  by simp

text \<open>
  C7: when update_baseline completes, the file at the key's baseline path
  \<open>baseline_{name}_{viewport}.png\<close> holds the newly captured snapshot, whatever was
  stored there before.
\<close>

theorem updateBaseline_overwrites:
  assumes "getBrowser e = None" "getPage e = None" "screenshot e 0 = Inr shot"
    "browser_close e = None"
  shows "\<exists>r fs'. updateBaseline e a fs = (Inr r, fs') \<and>
      field r ''success'' = Some (JBool True) \<and>
      field r ''baseline'' = Some (JString (baselinePath (name_of a) (viewport_of a))) \<and>
      baselinePath (name_of a) (viewport_of a) =
        path_join BASELINES_DIR (''baseline_'' @ name_of a @ ''_'' @ viewport_of a @ ''.png'') \<and>
      existsSync fs' (baselinePath (name_of a) (viewport_of a)) \<and>
      readFileSync fs' (baselinePath (name_of a) (viewport_of a)) = Inr shot"
proof -
  have "baselinePath (name_of a) (viewport_of a) =
      path_join BASELINES_DIR (''baseline_'' @ name_of a @ ''_'' @ viewport_of a @ ''.png'')"
    by (simp add: baselinePath_def)
  then show ?thesis
    using assms
    by (simp add: updateBaseline_def finally_close_def screenshot_file_def existsSync_def
        readFileSync_def Let_def)
qed

theorem updateBaseline_overwrites_witness:
  "getBrowser env_one_differs = None \<and> getPage env_one_differs = None \<and>
   screenshot env_one_differs 0 = Inr example_blue_png \<and>
   browser_close env_one_differs = None \<and>
   readFileSync example_files (baselinePath ''default'' ''desktop'') = Inr example_red_png \<and>
   (\<exists>r fs'. updateBaseline env_one_differs default_args example_files = (Inr r, fs') \<and>
      readFileSync fs' (baselinePath ''default'' ''desktop'') = Inr example_blue_png)"
  using updateBaseline_overwrites [of env_one_differs example_blue_png default_args example_files]
  by (simp add: readFileSync_def) blast

text \<open>
  C8: a comparison that reaches the estimation reports sizeDiff as a text, the
  percentage \<open>100 * |len(baseline) - len(current)| / len(baseline)\<close> with two decimals and
  a percent sign. The text is \<open>0.00%\<close> exactly when the length difference is below one
  20000th of the baseline's length, so a small difference of lengths is reported as zero.
\<close>

theorem sizeDiff_reported_to_two_decimals:
  assumes "getBrowser e = None" "getPage e = None" "screenshot e 0 = Inr c"
    "screenshot e 1 = Inr c2" "browser_close e = None"
    and "fs (baselinePath (name_of a) (viewport_of a)) = Some b"
    and "md5_hex e b \<noteq> md5_hex e c"
  shows "\<exists>r. fst (visualRegression e a fs) = Inr r \<and>
      field r ''sizeDiff'' = Some (JString (toFixed2 (js_mul (sizeDiff_of b c) (Num 100)) @ ''%'')) \<and>
      sizeDiff_of b c =
        js_div (Num \<bar>of_nat (length b) - of_nat (length c)\<bar>) (Num (of_nat (length b))) \<and>
      (field r ''sizeDiff'' = Some (JString ''0.00%'') \<longleftrightarrow>
         20000 * \<bar>int (length b) - int (length c)\<bar> < int (length b))"
proof -
  have "visualRegression e a fs =
    (Inr (comparisonResult (Math_random e) b c (threshold_of a)
            (baselinePath (name_of a) (viewport_of a))
            (currentPath (name_of a) (viewport_of a) (Date_now e 0))
            (diffPath (name_of a) (viewport_of a) (Date_now e 1))),
     fs(currentPath (name_of a) (viewport_of a) (Date_now e 0) \<mapsto> c))"
    using assms by (rule visualRegression_compared)
  then show ?thesis
    using sizeDiff_text_zero [of b c]
    by (simp add: field_sizeDiff_comparisonResult) (simp add: sizeDiff_of_def)
qed

theorem sizeDiff_reported_to_two_decimals_witness:
  "getBrowser env_one_differs = None \<and> getPage env_one_differs = None \<and>
   screenshot env_one_differs 0 = Inr example_blue_png \<and>
   screenshot env_one_differs 1 = Inr example_blue_png \<and>
   browser_close env_one_differs = None \<and>
   [baselinePath ''default'' ''desktop'' \<mapsto> example_white_png]
     (baselinePath (name_of default_args) (viewport_of default_args)) = Some example_white_png \<and>
   md5_hex env_one_differs example_white_png \<noteq> md5_hex env_one_differs example_blue_png \<and>
   length example_white_png = 68 \<and> length example_blue_png = 70 \<and>
   (\<exists>r. fst (visualRegression env_one_differs default_args
             [baselinePath ''default'' ''desktop'' \<mapsto> example_white_png]) = Inr r \<and>
        field r ''sizeDiff'' = Some (JString ''2.94%''))"
  using sizeDiff_reported_to_two_decimals
    [of env_one_differs example_blue_png example_blue_png
        "[baselinePath ''default'' ''desktop'' \<mapsto> example_white_png]" default_args
        example_white_png]
  by (simp add: example_md5_png sizeDiff_of_def floor_rat_numeral digits.simps digit_def) blast

text \<open>
  The claim as stated fails for a baseline of 20001 bytes and a snapshot of 20002 bytes:
  the lengths differ and the reported sizeDiff is \<open>0.00%\<close>.
\<close>

theorem sizeDiff_zero_counterexample:
  "length (replicate 20001 (0::8 word)) \<noteq> length (replicate 20002 (0::8 word)) \<and>
   (case fst (visualRegression (example_env (replicate 20002 0) (\<lambda>k. 0)) default_args
               [baselinePath ''default'' ''desktop'' \<mapsto> replicate 20001 0]) of
      Inl x \<Rightarrow> None
    | Inr r \<Rightarrow> field r ''sizeDiff'') = Some (JString ''0.00%'')"
proof -
  have "visualRegression (example_env (replicate 20002 0) (\<lambda>k. 0)) default_args
               [baselinePath ''default'' ''desktop'' \<mapsto> replicate 20001 0] =
    (Inr (comparisonResult (\<lambda>k. 0) (replicate 20001 0) (replicate 20002 0) (Num (1 / 10))
            (baselinePath ''default'' ''desktop'')
            (currentPath ''default'' ''desktop'' example_date)
            (diffPath ''default'' ''desktop'' example_date)),
     [baselinePath ''default'' ''desktop'' \<mapsto> replicate 20001 0,
      currentPath ''default'' ''desktop'' example_date \<mapsto> replicate 20002 0])"
    using visualRegression_compared
      [of "example_env (replicate 20002 0) (\<lambda>k. 0)" "replicate 20002 0" "replicate 20002 0"
          "[baselinePath ''default'' ''desktop'' \<mapsto> replicate 20001 0]" default_args
          "replicate 20001 0"]
    by (simp add: example_md5_20001)
  then show ?thesis
    using sizeDiff_text_zero [of "replicate 20001 0" "replicate 20002 0"]
    by (simp add: field_sizeDiff_comparisonResult)
qed

text \<open>
  C9: the verdict compares the unrounded diffPercentage with the threshold, while the
  diffPercentage field holds the value rounded to two decimals; so there are runs whose
  result says failed although its diffPercentage field is at most its threshold field.
  A difference of 0.104 is above the threshold 0.1 and is rounded to 0.1.
\<close>

theorem verdict_uses_unrounded_diffPercentage:
  assumes "getBrowser e = None" "getPage e = None" "screenshot e 0 = Inr c"
    "screenshot e 1 = Inr c2" "browser_close e = None"
    and "fs (baselinePath (name_of a) (viewport_of a)) = Some b"
    and "md5_hex e b \<noteq> md5_hex e c"
  shows "(\<exists>r. fst (visualRegression e a fs) = Inr r \<and>
            field r ''status'' = Some (JString
              (if js_le (diffPercentage_of (Math_random e) b c) (threshold_of a)
               then ''passed'' else ''failed'')) \<and>
            field r ''diffPercentage'' = Some (JNumber
              (js_div (Math_round (js_mul (diffPercentage_of (Math_random e) b c) (Num 100)))
                 (Num 100))) \<and>
            field r ''threshold'' = Some (JNumber (threshold_of a))) \<and>
         (\<exists>e' a' fs' r' d' t'. fst (visualRegression e' a' fs') = Inr r' \<and>
            field r' ''status'' = Some (JString ''failed'') \<and>
            field r' ''diffPercentage'' = Some (JNumber d') \<and>
            field r' ''threshold'' = Some (JNumber t') \<and> js_le d' t') \<and>
         \<not> js_le (Num (104 / 1000)) (Num (1 / 10)) \<and>
         js_div (Math_round (js_mul (Num (104 / 1000)) (Num 100))) (Num 100) = Num (1 / 10)"
proof -
  let ?a = "default_args\<lparr>arg_threshold := Some (Num (571 / 100))\<rparr>"
  let ?r = "comparisonResult random_one_differs example_red_png example_blue_png (Num (571 / 100))
            (baselinePath ''default'' ''desktop'')
            (currentPath ''default'' ''desktop'' example_date)
            (diffPath ''default'' ''desktop'' example_date)"
  have "visualRegression env_one_differs ?a example_files =
    (Inr ?r, example_files(currentPath ''default'' ''desktop'' example_date \<mapsto> example_blue_png))"
    using visualRegression_compared
      [of env_one_differs example_blue_png example_blue_png example_files ?a example_red_png]
    by (simp add: example_md5_png)
  then have "fst (visualRegression env_one_differs ?a example_files) = Inr ?r \<and>
      field ?r ''status'' = Some (JString ''failed'') \<and>
      field ?r ''diffPercentage'' = Some (JNumber (Num (571 / 100))) \<and>
      field ?r ''threshold'' = Some (JNumber (Num (571 / 100))) \<and>
      js_le (Num (571 / 100)) (Num (571 / 100))"
    by (simp add: field_status_comparisonResult field_diffPercentage_comparisonResult
        field_threshold_comparisonResult diffPercentage_one_differs floor_rat_numeral)
  then have ex: "\<exists>e' a' fs' r' d' t'. fst (visualRegression e' a' fs') = Inr r' \<and>
            field r' ''status'' = Some (JString ''failed'') \<and>
            field r' ''diffPercentage'' = Some (JNumber d') \<and>
            field r' ''threshold'' = Some (JNumber t') \<and> js_le d' t'"
    by blast
  have "visualRegression e a fs =
    (Inr (comparisonResult (Math_random e) b c (threshold_of a)
            (baselinePath (name_of a) (viewport_of a))
            (currentPath (name_of a) (viewport_of a) (Date_now e 0))
            (diffPath (name_of a) (viewport_of a) (Date_now e 1))),
     fs(currentPath (name_of a) (viewport_of a) (Date_now e 0) \<mapsto> c))"
    using assms by (rule visualRegression_compared)
  then show ?thesis
    using ex
    by (simp add: field_status_comparisonResult field_diffPercentage_comparisonResult
        field_threshold_comparisonResult floor_rat_numeral)
qed

theorem verdict_uses_unrounded_diffPercentage_witness:
  "getBrowser env_one_differs = None \<and> getPage env_one_differs = None \<and>
   screenshot env_one_differs 0 = Inr example_blue_png \<and>
   screenshot env_one_differs 1 = Inr example_blue_png \<and>
   browser_close env_one_differs = None \<and>
   example_files
     (baselinePath (name_of (default_args\<lparr>arg_threshold := Some (Num (571 / 100))\<rparr>))
        (viewport_of (default_args\<lparr>arg_threshold := Some (Num (571 / 100))\<rparr>))) =
     Some example_red_png \<and>
   md5_hex env_one_differs example_red_png \<noteq> md5_hex env_one_differs example_blue_png \<and>
   diffPercentage_of (Math_random env_one_differs) example_red_png example_blue_png = Num (40 / 7) \<and>
   \<not> js_le (Num (40 / 7)) (Num (571 / 100)) \<and>
   (\<exists>r. fst (visualRegression env_one_differs
             (default_args\<lparr>arg_threshold := Some (Num (571 / 100))\<rparr>) example_files) = Inr r \<and>
        field r ''status'' = Some (JString ''failed'') \<and>
        field r ''diffPercentage'' = Some (JNumber (Num (571 / 100))) \<and>
        field r ''threshold'' = Some (JNumber (Num (571 / 100))) \<and>
        js_le (Num (571 / 100)) (Num (571 / 100)))"
  using verdict_uses_unrounded_diffPercentage
    [of env_one_differs example_blue_png example_blue_png example_files
        "default_args\<lparr>arg_threshold := Some (Num (571 / 100))\<rparr>" example_red_png]
  by (simp add: example_md5_png diffPercentage_one_differs floor_rat_numeral)

text \<open>
  C10: a passed or failed result names a diff path. When name and viewport contain no
  slash, the path is \<open>diff_{name}_{viewport}_{timestamp}.png\<close> in the diffs directory and
  the run writes nothing there: the file system holds at that path after the run what it
  held before.
\<close>

theorem diff_path_never_written:
  assumes "getBrowser e = None" "getPage e = None" "screenshot e 0 = Inr c"
    "screenshot e 1 = Inr c2" "browser_close e = None"
    and "fs (baselinePath (name_of a) (viewport_of a)) = Some b"
    and "md5_hex e b \<noteq> md5_hex e c"
    and "CHR ''/'' \<notin> set (name_of a)" "CHR ''/'' \<notin> set (viewport_of a)"
  shows "\<exists>r fs'. visualRegression e a fs = (Inr r, fs') \<and>
      (field r ''status'' = Some (JString ''passed'') \<or>
       field r ''status'' = Some (JString ''failed'')) \<and>
      field r ''diff'' = Some (JString (diffPath (name_of a) (viewport_of a) (Date_now e 1))) \<and>
      diffPath (name_of a) (viewport_of a) (Date_now e 1) =
        DIFFS_DIR @ ''/diff_'' @ name_of a @ ''_'' @ viewport_of a @ ''_'' @
        timestamp (Date_now e 1) @ ''.png'' \<and>
      diffPath (name_of a) (viewport_of a) (Date_now e 1) \<noteq>
        currentPath (name_of a) (viewport_of a) (Date_now e 0) \<and>
      fs' (diffPath (name_of a) (viewport_of a) (Date_now e 1)) =
        fs (diffPath (name_of a) (viewport_of a) (Date_now e 1))"
proof -
  have run: "visualRegression e a fs =
    (Inr (comparisonResult (Math_random e) b c (threshold_of a)
            (baselinePath (name_of a) (viewport_of a))
            (currentPath (name_of a) (viewport_of a) (Date_now e 0))
            (diffPath (name_of a) (viewport_of a) (Date_now e 1))),
     fs(currentPath (name_of a) (viewport_of a) (Date_now e 0) \<mapsto> c))"
    using assms(1-7) by (rule visualRegression_compared)
  have neq: "diffPath (name_of a) (viewport_of a) (Date_now e 1) \<noteq>
      currentPath (name_of a) (viewport_of a) (Date_now e 0)"
    using assms(8,9) by (rule diffPath_neq_currentPath)
  have plain: "diffPath (name_of a) (viewport_of a) (Date_now e 1) =
        DIFFS_DIR @ ''/diff_'' @ name_of a @ ''_'' @ viewport_of a @ ''_'' @
        timestamp (Date_now e 1) @ ''.png''"
    using assms(8,9) by (rule diffPath_plain)
  show ?thesis
    using neq plain
    by (simp add: run field_status_comparisonResult field_diff_comparisonResult)
qed

theorem diff_path_never_written_witness:
  "getBrowser env_one_differs = None \<and> getPage env_one_differs = None \<and>
   screenshot env_one_differs 0 = Inr example_blue_png \<and>
   screenshot env_one_differs 1 = Inr example_blue_png \<and>
   browser_close env_one_differs = None \<and>
   example_files (baselinePath (name_of default_args) (viewport_of default_args)) =
     Some example_red_png \<and>
   md5_hex env_one_differs example_red_png \<noteq> md5_hex env_one_differs example_blue_png \<and>
   CHR ''/'' \<notin> set (name_of default_args) \<and> CHR ''/'' \<notin> set (viewport_of default_args) \<and>
   (\<exists>r fs'. visualRegression env_one_differs default_args example_files = (Inr r, fs') \<and>
      field r ''diff'' = Some (JString (diffPath ''default'' ''desktop'' example_date)) \<and>
      example_files (diffPath ''default'' ''desktop'' example_date) = None \<and>
      fs' (diffPath ''default'' ''desktop'' example_date) = None)"
  using diff_path_never_written
    [of env_one_differs example_blue_png example_blue_png example_files default_args
        example_red_png]
  by (simp add: example_md5_png) blast

text \<open>
  The claim as stated fails for the name \<open>a/../b\<close> when both timestamps fall into one
  second: \<open>path.join\<close> normalises the diff path and the path of the current snapshot to
  the same file, so after the run the captured snapshot is found at the diff path the
  result names, where no file was before.
\<close>

theorem diff_path_counterexample:
  "(case fst (visualRegression env_one_differs (default_args\<lparr>arg_name := Some ''a/../b''\<rparr>)
               [baselinePath ''a/../b'' ''desktop'' \<mapsto> example_red_png]) of
      Inl x \<Rightarrow> None
    | Inr r \<Rightarrow> field r ''status'') = Some (JString ''failed'') \<and>
   (case fst (visualRegression env_one_differs (default_args\<lparr>arg_name := Some ''a/../b''\<rparr>)
               [baselinePath ''a/../b'' ''desktop'' \<mapsto> example_red_png]) of
      Inl x \<Rightarrow> None
    | Inr r \<Rightarrow> field r ''diff'') =
     Some (JString ''/Users/yuripetrinim5/Downloads/symbiotic-reports/diffs/b_desktop_2025-01-15T10-30-07.png'') \<and>
   [baselinePath ''a/../b'' ''desktop'' \<mapsto> example_red_png]
     ''/Users/yuripetrinim5/Downloads/symbiotic-reports/diffs/b_desktop_2025-01-15T10-30-07.png'' = None \<and>
   snd (visualRegression env_one_differs (default_args\<lparr>arg_name := Some ''a/../b''\<rparr>)
          [baselinePath ''a/../b'' ''desktop'' \<mapsto> example_red_png])
     ''/Users/yuripetrinim5/Downloads/symbiotic-reports/diffs/b_desktop_2025-01-15T10-30-07.png'' =
     Some example_blue_png"
proof -
  have "visualRegression env_one_differs (default_args\<lparr>arg_name := Some ''a/../b''\<rparr>)
          [baselinePath ''a/../b'' ''desktop'' \<mapsto> example_red_png] =
    (Inr (comparisonResult random_one_differs example_red_png example_blue_png (Num (1 / 10))
            (baselinePath ''a/../b'' ''desktop'')
            (currentPath ''a/../b'' ''desktop'' example_date)
            (diffPath ''a/../b'' ''desktop'' example_date)),
     [baselinePath ''a/../b'' ''desktop'' \<mapsto> example_red_png,
      currentPath ''a/../b'' ''desktop'' example_date \<mapsto> example_blue_png])"
    using visualRegression_compared
      [of env_one_differs example_blue_png example_blue_png
          "[baselinePath ''a/../b'' ''desktop'' \<mapsto> example_red_png]"
          "default_args\<lparr>arg_name := Some ''a/../b''\<rparr>" example_red_png]
    by (simp add: example_md5_png)
  then show ?thesis
    by (simp add: field_status_comparisonResult field_diff_comparisonResult
        diffPercentage_one_differs example_paths)
qed

end
